theory Spec2Isabelle
  imports Main "HOL-Library.DAList"
begin

section \<open>The authenticator of the security plugin\<close>

text \<open>
  A shallow embedding of \<^verbatim>\<open>x-pack/plugins/security/server/authentication/authenticator.ts\<close>:
  the class \<^verbatim>\<open>Authenticator\<close> with its methods \<^verbatim>\<open>login\<close>, \<^verbatim>\<open>authenticate\<close>, \<^verbatim>\<open>logout\<close>,
  \<^verbatim>\<open>providerIterator\<close>, \<^verbatim>\<open>getSessionValue\<close> and \<^verbatim>\<open>updateSessionValue\<close>.

  The asynchronous methods run sequentially (every call is awaited), so each method is a
  function from the state before the call to the outcome and the state after it. The state
  holds the content of the request's session storage, the state of the world the providers
  talk to, and a chronological record of the storage operations and provider calls made so
  far, which is what the ordering properties are stated on.
\<close>

subsection \<open>Data model\<close>

text \<open>The interface \<^verbatim>\<open>ProviderSession\<close>: the session as it is stored in the cookie.\<close>

record 'st ProviderSession =
  provider :: string
  expires :: "int option"
  state :: 'st

text \<open>The interface \<^verbatim>\<open>ProviderLoginAttempt\<close>.\<close>

datatype 'v ProviderLoginAttempt =
  ProviderLoginAttempt (attempt_provider: string) (attempt_value: 'v)

text \<open>
  The request. \<^verbatim>\<open>assertRequest\<close> tests \<^verbatim>\<open>request instanceof KibanaRequest\<close> at run time;
  the field \<open>isKibanaRequest\<close> is the result of that test.
\<close>

record request =
  isKibanaRequest :: bool
  query :: "(string \<times> string) list"

text \<open>
  Everything the constructor and the methods can throw: the errors of \<^verbatim>\<open>assertRequest\<close>,
  of \<^verbatim>\<open>assertLoginAttempt\<close>, of the constructor and of \<^verbatim>\<open>instantiateProvider\<close>, an error
  thrown by the constructor of a provider class, and the \<^verbatim>\<open>TypeError\<close> of a member access on
  \<^verbatim>\<open>undefined\<close> or \<^verbatim>\<open>null\<close>.
\<close>

datatype error =
    InvalidRequest
  | InvalidLoginAttempt
  | NoProviderConfigured
  | UnsupportedProvider string
  | ProviderOptionsError string
  | TypeError

text \<open>
  Modelled from the spec: the error carried by a failed outcome and \<^verbatim>\<open>getErrorStatusCode\<close>
  of \<^verbatim>\<open>../errors\<close>, which are not among the sources. An error carries a status
  classification; the classification 401 is the one that stands for "unauthorized".
\<close>

datatype AuthenticationError = AuthenticationError (statusCode: "int option") (message: string)

definition getErrorStatusCode :: "AuthenticationError \<Rightarrow> int option" where
  "getErrorStatusCode e = statusCode e"

text \<open>
  Modelled from the spec: the class \<^verbatim>\<open>AuthenticationResult\<close> of \<^verbatim>\<open>./authentication_result\<close>,
  which is not among the sources. An outcome is one of not-handled, succeeded (with the
  user and optionally a state), failed (with an error) and redirected (with the destination
  and optionally a state). The optional state is absent (\<open>Unset\<close>), a request to clear the
  stored state (\<open>Clear\<close>, the value \<^verbatim>\<open>null\<close>) or a state to persist (\<open>Update\<close>), so that at most one
  of the two intents holds of an outcome.
\<close>

datatype 'st StateIntent = Unset | Clear | Update 'st

datatype 'st AuthenticationResult =
    NotHandled
  | Succeeded string "'st StateIntent"
  | Failed AuthenticationError
  | Redirected string "'st StateIntent"

fun notHandled :: "'st AuthenticationResult \<Rightarrow> bool" where
  "notHandled NotHandled = True"
| "notHandled _ = False"

fun succeeded :: "'st AuthenticationResult \<Rightarrow> bool" where
  "succeeded (Succeeded _ _) = True"
| "succeeded _ = False"

fun failed :: "'st AuthenticationResult \<Rightarrow> bool" where
  "failed (Failed _) = True"
| "failed _ = False"

fun redirected :: "'st AuthenticationResult \<Rightarrow> bool" where
  "redirected (Redirected _ _) = True"
| "redirected _ = False"

fun result_state :: "'st AuthenticationResult \<Rightarrow> 'st StateIntent" where
  "result_state (Succeeded _ i) = i"
| "result_state (Redirected _ i) = i"
| "result_state _ = Unset"

fun shouldUpdateState :: "'st AuthenticationResult \<Rightarrow> bool" where
  "shouldUpdateState r = (case result_state r of Update _ \<Rightarrow> True | _ \<Rightarrow> False)"

fun shouldClearState :: "'st AuthenticationResult \<Rightarrow> bool" where
  "shouldClearState r = (case result_state r of Clear \<Rightarrow> True | _ \<Rightarrow> False)"

text \<open>
  The test \<^verbatim>\<open>authenticationResult.failed() && getErrorStatusCode(authenticationResult.error) === 401\<close>
  of \<^verbatim>\<open>login\<close> and \<^verbatim>\<open>updateSessionValue\<close>.
\<close>

fun failedWith401 :: "'st AuthenticationResult \<Rightarrow> bool" where
  "failedWith401 (Failed e) = (getErrorStatusCode e = Some 401)"
| "failedWith401 _ = False"

text \<open>
  Modelled from the spec: the class \<^verbatim>\<open>DeauthenticationResult\<close> of \<^verbatim>\<open>./deauthentication_result\<close>,
  which is not among the sources: not-handled, or redirected to a destination.
\<close>

datatype DeauthenticationResult = DeauthNotHandled | DeauthRedirected string

text \<open>
  Modelled from the spec: \<^verbatim>\<open>isSAMLRequestQuery\<close> of \<^verbatim>\<open>./providers\<close>, which is not among the
  sources: the request's query carries a federated-logout request, a non-empty
  \<^verbatim>\<open>SAMLRequest\<close> parameter.
\<close>

definition isSAMLRequestQuery :: "(string \<times> string) list \<Rightarrow> bool" where
  "isSAMLRequestQuery q = (case map_of q ''SAMLRequest'' of None \<Rightarrow> False | Some v \<Rightarrow> v \<noteq> [])"

text \<open>
  Modelled from the spec: the capability contract \<^verbatim>\<open>BaseAuthenticationProvider\<close> of
  \<^verbatim>\<open>./providers\<close>, which is not among the sources. A provider has three operations; each
  reads and changes the world \<open>'w\<close> outside the authenticator (the identity backend), gets
  the provider state it owns or none, and returns an outcome. A provider has no access to
  the session storage.
\<close>

record ('w, 'v, 'st) BaseAuthenticationProvider =
  provider_login :: "request \<Rightarrow> 'v \<Rightarrow> 'st option \<Rightarrow> 'w \<Rightarrow> 'st AuthenticationResult \<times> 'w"
  provider_authenticate :: "request \<Rightarrow> 'st option \<Rightarrow> 'w \<Rightarrow> 'st AuthenticationResult \<times> 'w"
  provider_logout :: "request \<Rightarrow> 'st option \<Rightarrow> 'w \<Rightarrow> DeauthenticationResult \<times> 'w"

text \<open>
  What has been done so far, in chronological order: the operations on the session storage
  and the calls of provider operations, with the provider's configured name, the provider
  state passed and the outcome returned.
\<close>

datatype ('v, 'st) event =
    StorageGet
  | StorageSet "'st ProviderSession"
  | StorageClear
  | ProviderLogin string 'v "'st option" "'st AuthenticationResult"
  | ProviderAuthenticate string "'st option" "'st AuthenticationResult"
  | ProviderLogout string "'st option" DeauthenticationResult

record ('w, 'v, 'st) system =
  store :: "'st ProviderSession option"
  world :: 'w
  trace :: "('v, 'st) event list"

text \<open>
  Modelled from the spec: the \<^verbatim>\<open>SessionStorage\<close> of the core server, which is not among the
  sources, scoped to the request: \<^verbatim>\<open>get\<close>, \<^verbatim>\<open>set\<close> and \<^verbatim>\<open>clear\<close>, where a \<^verbatim>\<open>get\<close> reads
  what the last \<^verbatim>\<open>set\<close> or \<^verbatim>\<open>clear\<close> left.
\<close>

definition sessionStorage_get ::
  "('w, 'v, 'st) system \<Rightarrow> 'st ProviderSession option \<times> ('w, 'v, 'st) system" where
  "sessionStorage_get s = (store s, s\<lparr>trace := trace s @ [StorageGet]\<rparr>)"

definition sessionStorage_set ::
  "'st ProviderSession \<Rightarrow> ('w, 'v, 'st) system \<Rightarrow> ('w, 'v, 'st) system" where
  "sessionStorage_set v s = s\<lparr>store := Some v, trace := trace s @ [StorageSet v]\<rparr>"

definition sessionStorage_clear :: "('w, 'v, 'st) system \<Rightarrow> ('w, 'v, 'st) system" where
  "sessionStorage_clear s = s\<lparr>store := None, trace := trace s @ [StorageClear]\<rparr>"

text \<open>
  The fields of the class \<^verbatim>\<open>Authenticator\<close>. \<open>providers\<close> is a JavaScript \<^verbatim>\<open>Map\<close>: its keys are
  unique and it is iterated in the order in which the keys were first inserted, which is an
  association list with distinct keys. \<open>isSystemAPIRequest\<close> is the one member of
  \<^verbatim>\<open>options\<close> that the methods use besides the session storage.
\<close>

record ('w, 'v, 'st) Authenticator =
  providers :: "(string, ('w, 'v, 'st) BaseAuthenticationProvider) alist"
  ttl :: "int option"
  isSystemAPIRequest :: "request \<Rightarrow> bool"

subsection \<open>The constructor\<close>

datatype ProviderClass =
    BasicAuthenticationProvider
  | KerberosAuthenticationProvider
  | SAMLAuthenticationProvider
  | TokenAuthenticationProvider
  | OIDCAuthenticationProvider

definition providerMap :: "(string \<times> ProviderClass) list" where
  "providerMap =
    [(''basic'', BasicAuthenticationProvider),
     (''kerberos'', KerberosAuthenticationProvider),
     (''saml'', SAMLAuthenticationProvider),
     (''token'', TokenAuthenticationProvider),
     (''oidc'', OIDCAuthenticationProvider)]"

text \<open>
  The options of the constructor: the configured provider names in their order
  (\<^verbatim>\<open>config.authc.providers\<close>), \<^verbatim>\<open>config.sessionTimeout\<close>, the predicate
  \<^verbatim>\<open>isSystemAPIRequest\<close>, and \<open>construct\<close>, which stands for the constructors of the provider
  classes (not among the sources) applied to the common and the provider-specific options
  of this configuration; a constructor may throw.
\<close>

record ('w, 'v, 'st) AuthenticatorOptions =
  authc_providers :: "string list"
  sessionTimeout :: "int option"
  options_isSystemAPIRequest :: "request \<Rightarrow> bool"
  construct :: "ProviderClass \<Rightarrow> error + ('w, 'v, 'st) BaseAuthenticationProvider"

definition instantiateProvider ::
  "('w, 'v, 'st) AuthenticatorOptions \<Rightarrow> string \<Rightarrow> error + ('w, 'v, 'st) BaseAuthenticationProvider" where
  "instantiateProvider options providerType =
    (case map_of providerMap providerType of
       None \<Rightarrow> Inl (UnsupportedProvider providerType)
     | Some ProviderClassName \<Rightarrow> construct options ProviderClassName)"

text \<open>
  \<^verbatim>\<open>authProviders.map(providerType => [providerType, instantiateProvider(...)])\<close>, which
  stops at the first provider that cannot be instantiated.
\<close>

fun instantiateAll ::
  "('w, 'v, 'st) AuthenticatorOptions \<Rightarrow> string list \<Rightarrow>
   error + (string \<times> ('w, 'v, 'st) BaseAuthenticationProvider) list" where
  "instantiateAll options [] = Inr []"
| "instantiateAll options (providerType # rest) =
    (case instantiateProvider options providerType of
       Inl e \<Rightarrow> Inl e
     | Inr p \<Rightarrow>
        (case instantiateAll options rest of
           Inl e \<Rightarrow> Inl e
         | Inr ps \<Rightarrow> Inr ((providerType, p) # ps)))"

text \<open>\<^verbatim>\<open>new Map(entries)\<close>: the entries are set one after the other.\<close>

definition Map_new :: "('k \<times> 'a) list \<Rightarrow> ('k, 'a) alist" where
  "Map_new entries = foldl (\<lambda>m (k, v). DAList.update k v m) DAList.empty entries"

definition Authenticator_new ::
  "('w, 'v, 'st) AuthenticatorOptions \<Rightarrow> error + ('w, 'v, 'st) Authenticator" where
  "Authenticator_new options =
    (if authc_providers options = [] then Inl NoProviderConfigured
     else
       (case instantiateAll options (authc_providers options) of
          Inl e \<Rightarrow> Inl e
        | Inr entries \<Rightarrow>
            Inr \<lparr>providers = Map_new entries,
                 ttl = sessionTimeout options,
                 isSystemAPIRequest = options_isSystemAPIRequest options\<rparr>))"

subsection \<open>The methods\<close>

definition assertRequest :: "request \<Rightarrow> bool" where
  "assertRequest request = isKibanaRequest request"

text \<open>
  \<^verbatim>\<open>assertLoginAttempt\<close>: the attempt is typed, so it is an object and its provider is a
  string; what is left of the test is that the provider is not the empty string.
\<close>

definition assertLoginAttempt :: "'v ProviderLoginAttempt \<Rightarrow> bool" where
  "assertLoginAttempt attempt = (attempt_provider attempt \<noteq> [])"

text \<open>
  Numbers. The session timeout is a duration in milliseconds and \<^verbatim>\<open>Date.now()\<close> is a count of
  milliseconds, so both are integers here; a timeout with a fractional part is outside
  the model. JavaScript adds two numbers as IEEE 754 doubles: the sum is the double nearest
  to the exact sum, the one with the even significand when two are equally near.
  \<open>roundToDouble\<close> is that rounding on integers: an integer of at most 53 bits is a double,
  a longer one is rounded to 53 significant bits. A sum of magnitude \<open>2\<^sup>1\<^sup>0\<^sup>2\<^sup>4\<close> or more,
  which is infinite in JavaScript, is outside the model.
\<close>

fun bit_length :: "nat \<Rightarrow> nat" where
  "bit_length n = (if n = 0 then 0 else Suc (bit_length (n div 2)))"

definition roundToDouble :: "int \<Rightarrow> int" where
  "roundToDouble x =
    (let a = nat \<bar>x\<bar>; n = bit_length a in
     if n \<le> 53 then x
     else
       (let sh = n - 53;
            q = a div 2 ^ sh;
            rest = a mod 2 ^ sh;
            half = 2 ^ (sh - 1);
            q' = (if half < rest \<or> (rest = half \<and> odd q) then q + 1 else q)
        in sgn x * int (q' * 2 ^ sh)))"

text \<open>The operator \<^verbatim>\<open>+\<close> on two numbers.\<close>

definition number_plus :: "int \<Rightarrow> int \<Rightarrow> int" where
  "number_plus x y = roundToDouble (x + y)"

text \<open>
  The expression \<^verbatim>\<open>this.ttl && Date.now() + this.ttl\<close> of \<^verbatim>\<open>login\<close> and
  \<^verbatim>\<open>updateSessionValue\<close>: \<^verbatim>\<open>&&\<close> yields its left operand when that is falsy, which
  \<^verbatim>\<open>null\<close> and \<^verbatim>\<open>0\<close> are, and its right operand otherwise. \<open>now\<close> is what \<^verbatim>\<open>Date.now()\<close>
  returns.
\<close>

definition sessionExpires :: "int option \<Rightarrow> int \<Rightarrow> int option" where
  "sessionExpires t now =
    (case t of
       None \<Rightarrow> None
     | Some d \<Rightarrow> if d = 0 then Some d else Some (number_plus now d))"

definition getSessionValue ::
  "('w, 'v, 'st) Authenticator \<Rightarrow> ('w, 'v, 'st) system \<Rightarrow>
   'st ProviderSession option \<times> ('w, 'v, 'st) system" where
  "getSessionValue a s =
    (let (sessionValue, s1) = sessionStorage_get s in
     case sessionValue of
       None \<Rightarrow> (None, s1)
     | Some v \<Rightarrow>
         if DAList.lookup (providers a) (provider v) = None
         then (None, sessionStorage_clear s1)
         else (Some v, s1))"

text \<open>
  \<^verbatim>\<open>updateSessionValue\<close>. The state to store is the outcome's when the outcome asks for an
  update and \<^verbatim>\<open>existingSession!.state\<close> otherwise, which throws when there is no existing
  session.
\<close>

definition updateSessionValue ::
  "('w, 'v, 'st) Authenticator \<Rightarrow> int \<Rightarrow> string \<Rightarrow> 'st AuthenticationResult \<Rightarrow>
   'st ProviderSession option \<Rightarrow> bool \<Rightarrow> ('w, 'v, 'st) system \<Rightarrow> error + ('w, 'v, 'st) system" where
  "updateSessionValue a now providerType authenticationResult existingSession isSystemAPI s =
    (if existingSession = None \<and> \<not> shouldUpdateState authenticationResult then Inr s
     else
       (let sessionCanBeUpdated =
              (succeeded authenticationResult \<or> redirected authenticationResult) \<and>
              (shouldUpdateState authenticationResult \<or> \<not> isSystemAPI)
        in
          if shouldClearState authenticationResult \<or> failedWith401 authenticationResult
          then Inr (sessionStorage_clear s)
          else if sessionCanBeUpdated then
            (case (case result_state authenticationResult of
                     Update st \<Rightarrow> Some st
                   | _ \<Rightarrow> map_option state existingSession) of
               None \<Rightarrow> Inl TypeError
             | Some st \<Rightarrow>
                 Inr (sessionStorage_set
                        \<lparr>provider = providerType, expires = sessionExpires (ttl a) now, state = st\<rparr> s))
          else Inr s))"

text \<open>
  \<^verbatim>\<open>providerIterator\<close>: the entries in the order in which they are yielded. The owner of the
  session is looked up with \<^verbatim>\<open>this.providers.get(sessionValue.provider)!\<close>, which yields
  \<^verbatim>\<open>undefined\<close> for a name that is not configured, so an entry holds a provider or none.
\<close>

definition providerIterator ::
  "('w, 'v, 'st) Authenticator \<Rightarrow> 'st ProviderSession option \<Rightarrow>
   (string \<times> ('w, 'v, 'st) BaseAuthenticationProvider option) list" where
  "providerIterator a sessionValue =
    (case sessionValue of
       None \<Rightarrow> map (\<lambda>(providerType, p). (providerType, Some p)) (DAList.impl_of (providers a))
     | Some v \<Rightarrow>
         (provider v, DAList.lookup (providers a) (provider v)) #
         map (\<lambda>(providerType, p). (providerType, Some p))
           (filter (\<lambda>(providerType, p). providerType \<noteq> provider v) (DAList.impl_of (providers a))))"

text \<open>
  The loop of \<^verbatim>\<open>authenticate\<close> over the entries that the iterator has still to yield;
  \<open>authenticationResult\<close> is the variable of that name. Calling \<^verbatim>\<open>authenticate\<close> on an
  entry without a provider throws.
\<close>

fun authenticate_loop ::
  "('w, 'v, 'st) Authenticator \<Rightarrow> request \<Rightarrow> int \<Rightarrow> 'st ProviderSession option \<Rightarrow>
   'st AuthenticationResult \<Rightarrow> (string \<times> ('w, 'v, 'st) BaseAuthenticationProvider option) list \<Rightarrow>
   ('w, 'v, 'st) system \<Rightarrow> (error + 'st AuthenticationResult) \<times> ('w, 'v, 'st) system" where
  "authenticate_loop a request now existingSession authenticationResult [] s =
    (Inr authenticationResult, s)"
| "authenticate_loop a request now existingSession authenticationResult ((providerType, entry) # rest) s =
    (case entry of
       None \<Rightarrow> (Inl TypeError, s)
     | Some p \<Rightarrow>
        (let ownsSession =
               (case existingSession of None \<Rightarrow> False | Some v \<Rightarrow> provider v = providerType);
             passed = (if ownsSession then map_option state existingSession else None);
             (r, w) = provider_authenticate p request passed (world s);
             s1 = s\<lparr>world := w, trace := trace s @ [ProviderAuthenticate providerType passed r]\<rparr>
         in
           case updateSessionValue a now providerType r
                  (if ownsSession then existingSession else None)
                  (isSystemAPIRequest a request) s1 of
             Inl e \<Rightarrow> (Inl e, s1)
           | Inr s2 \<Rightarrow>
               if failed r \<or> succeeded r \<or> redirected r then (Inr r, s2)
               else authenticate_loop a request now existingSession r rest s2))"

definition authenticate ::
  "('w, 'v, 'st) Authenticator \<Rightarrow> request \<Rightarrow> int \<Rightarrow> ('w, 'v, 'st) system \<Rightarrow>
   (error + 'st AuthenticationResult) \<times> ('w, 'v, 'st) system" where
  "authenticate a request now s =
    (if \<not> assertRequest request then (Inl InvalidRequest, s)
     else
       (let (existingSession, s1) = getSessionValue a s in
        authenticate_loop a request now existingSession NotHandled
          (providerIterator a existingSession) s1))"

definition login ::
  "('w, 'v, 'st) Authenticator \<Rightarrow> request \<Rightarrow> 'v ProviderLoginAttempt \<Rightarrow> int \<Rightarrow>
   ('w, 'v, 'st) system \<Rightarrow> (error + 'st AuthenticationResult) \<times> ('w, 'v, 'st) system" where
  "login a request attempt now s =
    (if \<not> assertRequest request then (Inl InvalidRequest, s)
     else if \<not> assertLoginAttempt attempt then (Inl InvalidLoginAttempt, s)
     else
       (case DAList.lookup (providers a) (attempt_provider attempt) of
          None \<Rightarrow> (Inr NotHandled, s)
        | Some p \<Rightarrow>
           (let (found, s1) = getSessionValue a s;
                (existingSession, s2) =
                  (case found of
                     None \<Rightarrow> (None, s1)
                   | Some v \<Rightarrow>
                       if provider v \<noteq> attempt_provider attempt
                       then (None, sessionStorage_clear s1)
                       else (Some v, s1));
                passed = map_option state existingSession;
                (authenticationResult, w) =
                  provider_login p request (attempt_value attempt) passed (world s2);
                s3 = s2\<lparr>world := w,
                        trace := trace s2 @
                          [ProviderLogin (attempt_provider attempt) (attempt_value attempt) passed
                             authenticationResult]\<rparr>;
                shouldClearSession =
                  (shouldClearState authenticationResult \<or> failedWith401 authenticationResult)
            in
              (Inr authenticationResult,
               if existingSession \<noteq> None \<and> shouldClearSession then sessionStorage_clear s3
               else
                 (case result_state authenticationResult of
                    Update st \<Rightarrow>
                      sessionStorage_set
                        \<lparr>provider = attempt_provider attempt,
                         expires = sessionExpires (ttl a) now,
                         state = st\<rparr> s3
                  | _ \<Rightarrow> s3)))))"

text \<open>
  \<^verbatim>\<open>logout\<close>. Both lookups of a provider are \<^verbatim>\<open>this.providers.get(...)!.logout(...)\<close>, which
  throws when the name is not configured; the second one is guarded by
  \<^verbatim>\<open>this.providers.has('saml')\<close>.
\<close>

definition logout ::
  "('w, 'v, 'st) Authenticator \<Rightarrow> request \<Rightarrow> ('w, 'v, 'st) system \<Rightarrow>
   (error + DeauthenticationResult) \<times> ('w, 'v, 'st) system" where
  "logout a request s =
    (if \<not> assertRequest request then (Inl InvalidRequest, s)
     else
       (let (sessionValue, s1) = getSessionValue a s in
        case sessionValue of
          Some v \<Rightarrow>
            (let s2 = sessionStorage_clear s1 in
             case DAList.lookup (providers a) (provider v) of
               None \<Rightarrow> (Inl TypeError, s2)
             | Some p \<Rightarrow>
                 (let (r, w) = provider_logout p request (Some (state v)) (world s2) in
                  (Inr r,
                   s2\<lparr>world := w,
                      trace := trace s2 @ [ProviderLogout (provider v) (Some (state v)) r]\<rparr>)))
        | None \<Rightarrow>
            if isSAMLRequestQuery (query request) \<and> DAList.lookup (providers a) ''saml'' \<noteq> None
            then
              (case DAList.lookup (providers a) ''saml'' of
                 None \<Rightarrow> (Inl TypeError, s1)
               | Some p \<Rightarrow>
                   (let (r, w) = provider_logout p request None (world s1) in
                    (Inr r, s1\<lparr>world := w, trace := trace s1 @ [ProviderLogout ''saml'' None r]\<rparr>)))
            else (Inr DeauthNotHandled, s1)))"

subsection \<open>Reading the record of events\<close>

text \<open>
  The state that \<^verbatim>\<open>authenticate\<close> passes to the provider named \<open>providerType\<close>:
  \<^verbatim>\<open>ownsSession ? existingSession!.state : null\<close>.
\<close>

definition passed_state :: "'st ProviderSession option \<Rightarrow> string \<Rightarrow> 'st option" where
  "passed_state existingSession providerType =
    (case existingSession of
       None \<Rightarrow> None
     | Some v \<Rightarrow> if provider v = providerType then Some (state v) else None)"

text \<open>The calls of a provider's \<^verbatim>\<open>authenticate\<close> among some events, in their order.\<close>

fun authenticate_calls ::
  "('v, 'st) event list \<Rightarrow> (string \<times> 'st option \<times> 'st AuthenticationResult) list" where
  "authenticate_calls [] = []"
| "authenticate_calls (ProviderAuthenticate n passed r # evs) = (n, passed, r) # authenticate_calls evs"
| "authenticate_calls (_ # evs) = authenticate_calls evs"

text \<open>The operations among some events that change the session storage.\<close>

fun storage_writes :: "('v, 'st) event list \<Rightarrow> ('v, 'st) event list" where
  "storage_writes [] = []"
| "storage_writes (StorageSet v # evs) = StorageSet v # storage_writes evs"
| "storage_writes (StorageClear # evs) = StorageClear # storage_writes evs"
| "storage_writes (_ # evs) = storage_writes evs"

text \<open>
  The order of visit as the specification words it: the configured order when there is no
  session, and otherwise the provider that owns the session first, then the remaining
  configured providers in the configured order.
\<close>

definition visit_order :: "('w, 'v, 'st) Authenticator \<Rightarrow> 'st ProviderSession option \<Rightarrow> string list" where
  "visit_order a sessionValue =
    (let names = map fst (DAList.impl_of (providers a)) in
     case sessionValue of
       None \<Rightarrow> names
     | Some v \<Rightarrow> provider v # filter (\<lambda>n. n \<noteq> provider v) names)"

subsection \<open>Concrete configurations\<close>

text \<open>
  A provider whose \<^verbatim>\<open>login\<close> and \<^verbatim>\<open>authenticate\<close> return fixed outcomes; the world is the
  number of calls the backend has served. Provider states are numbers and login values
  are strings.
\<close>

definition example_provider ::
  "nat AuthenticationResult \<Rightarrow> nat AuthenticationResult \<Rightarrow>
   (nat, string, nat) BaseAuthenticationProvider" where
  "example_provider onLogin onAuthenticate =
    \<lparr>provider_login = (\<lambda>request v st w. (onLogin, Suc w)),
     provider_authenticate = (\<lambda>request st w. (onAuthenticate, Suc w)),
     provider_logout = (\<lambda>request st w. (DeauthRedirected ''/logged_out'', Suc w))\<rparr>"

definition example_authenticator ::
  "(string \<times> (nat, string, nat) BaseAuthenticationProvider) list \<Rightarrow> int option \<Rightarrow> bool \<Rightarrow>
   (nat, string, nat) Authenticator" where
  "example_authenticator entries t background =
    \<lparr>providers = Map_new entries, ttl = t, isSystemAPIRequest = (\<lambda>request. background)\<rparr>"

definition example_request :: request where
  "example_request = \<lparr>isKibanaRequest = True, query = []\<rparr>"

definition example_system :: "nat ProviderSession option \<Rightarrow> (nat, string, nat) system" where
  "example_system v = \<lparr>store = v, world = 0, trace = []\<rparr>"

text \<open>
  The chain \<^verbatim>\<open>["token", "saml"]\<close> with a session timeout of 60 minutes, where the token
  provider does not handle the request and the SAML provider redirects with a new state.
\<close>

definition example_chain :: "(nat, string, nat) Authenticator" where
  "example_chain =
    example_authenticator
      [(''token'', example_provider NotHandled NotHandled),
       (''saml'', example_provider NotHandled (Redirected ''/idp'' (Update 1)))]
      (Some 3600000) False"

text \<open>An outcome that failed with an error classified as unauthorized.\<close>

definition example_unauthorized :: "nat AuthenticationResult" where
  "example_unauthorized = Failed (AuthenticationError (Some 401) ''Unauthorized'')"

text \<open>
  The chain \<^verbatim>\<open>["basic", "token"]\<close>: the basic provider logs a user in with the state 7 and does
  not handle requests; the token provider rejects every login and every request as
  unauthorized.
\<close>

definition example_fallback :: "(nat, string, nat) Authenticator" where
  "example_fallback =
    example_authenticator
      [(''basic'', example_provider (Succeeded ''elastic'' (Update 7)) NotHandled),
       (''token'', example_provider example_unauthorized example_unauthorized)]
      (Some 3600000) False"

text \<open>
  The chain \<^verbatim>\<open>["basic", "token"]\<close> where the basic provider handles nothing and the token
  provider authenticates every request without returning a state.
\<close>

definition example_fallthrough :: "(nat, string, nat) Authenticator" where
  "example_fallthrough =
    example_authenticator
      [(''basic'', example_provider NotHandled NotHandled),
       (''token'', example_provider NotHandled (Succeeded ''elastic'' Unset))]
      (Some 3600000) False"

text \<open>
  The basic provider alone: it logs a user in with the state 7 and answers every request
  with the given outcome.
\<close>

definition example_single ::
  "nat AuthenticationResult \<Rightarrow> int option \<Rightarrow> bool \<Rightarrow> (nat, string, nat) Authenticator" where
  "example_single onAuthenticate t background =
    example_authenticator
      [(''basic'', example_provider (Succeeded ''elastic'' (Update 7)) onAuthenticate)]
      t background"

definition example_basic_session :: "nat ProviderSession" where
  "example_basic_session = \<lparr>provider = ''basic'', expires = None, state = 5\<rparr>"

definition example_token_session :: "nat ProviderSession" where
  "example_token_session = \<lparr>provider = ''token'', expires = None, state = 9\<rparr>"

text \<open>
  The options from which the constructor builds \<open>example_chain\<close>: only the token and the
  SAML provider can be constructed.
\<close>

definition example_options :: "(nat, string, nat) AuthenticatorOptions" where
  "example_options =
    \<lparr>authc_providers = [''token'', ''saml''],
     sessionTimeout = Some 3600000,
     options_isSystemAPIRequest = (\<lambda>request. False),
     construct = (\<lambda>c. case c of
         TokenAuthenticationProvider \<Rightarrow> Inr (example_provider NotHandled NotHandled)
       | SAMLAuthenticationProvider \<Rightarrow>
           Inr (example_provider NotHandled (Redirected ''/idp'' (Update 1)))
       | _ \<Rightarrow> Inl (ProviderOptionsError ''not available''))\<rparr>"

text \<open>
  The chain \<^verbatim>\<open>["basic", "token", "saml"]\<close> where only the SAML provider handles a request, by
  redirecting with a new state.
\<close>

definition example_three :: "(nat, string, nat) Authenticator" where
  "example_three =
    example_authenticator
      [(''basic'', example_provider NotHandled NotHandled),
       (''token'', example_provider NotHandled NotHandled),
       (''saml'', example_provider NotHandled (Redirected ''/idp'' (Update 1)))]
      (Some 3600000) False"

section \<open>Properties\<close>

subsection \<open>Auxiliary facts\<close>

declare bit_length.simps [simp del]

lemma bit_length_le: "n < 2 ^ k \<Longrightarrow> bit_length n \<le> k"
proof (induction k arbitrary: n)
  case 0
  then show ?case by (simp add: bit_length.simps)
next
  case (Suc k)
  then have "n div 2 < 2 ^ k" by auto
  from Suc.IH [OF this] show ?case by (subst bit_length.simps) simp
qed

lemmas number_eval = roundToDouble_def bit_length.simps Let_def

lemma roundToDouble_largest_exact:
  "roundToDouble 9007199254740992 = 9007199254740992"
  "roundToDouble (- 9007199254740992) = - 9007199254740992"
  by (simp_all add: number_eval)

text \<open>Within \<open>2\<^sup>5\<^sup>3\<close> in magnitude the sum of two numbers is exact.\<close>

lemma roundToDouble_exact:
  assumes "\<bar>x\<bar> \<le> 9007199254740992"
  shows "roundToDouble x = x"
proof (cases "\<bar>x\<bar> = 9007199254740992")
  case True
  then have "x = 9007199254740992 \<or> x = - 9007199254740992" by arith
  then show ?thesis using roundToDouble_largest_exact by auto
next
  case False
  with assms have "nat \<bar>x\<bar> < 2 ^ 53" by simp
  then have "bit_length (nat \<bar>x\<bar>) \<le> 53" by (rule bit_length_le)
  then show ?thesis by (simp add: roundToDouble_def Let_def)
qed

lemma number_plus_exact: "\<bar>x + y\<bar> \<le> 9007199254740992 \<Longrightarrow> number_plus x y = x + y"
  by (simp add: number_plus_def roundToDouble_exact)

lemma updateSessionValue_not_owner:
  "\<not> shouldUpdateState r \<Longrightarrow> updateSessionValue a now n r None sysreq s = Inr s"
  by (simp add: updateSessionValue_def)

lemma updateSessionValue_NotHandled:
  "updateSessionValue a now n NotHandled ex sysreq s = Inr s"
  by (simp add: updateSessionValue_def)

lemma updateSessionValue_total:
  "\<exists>s'. updateSessionValue a now n r ex sysreq s = Inr s'"
  by (cases r; cases "result_state r"; cases ex; simp add: updateSessionValue_def)

lemma getSessionValue_None:
  "store s = None \<Longrightarrow> getSessionValue a s = (None, s\<lparr>trace := trace s @ [StorageGet]\<rparr>)"
  by (simp add: getSessionValue_def sessionStorage_get_def)

lemma getSessionValue_valid:
  "store s = Some v \<Longrightarrow> DAList.lookup (providers a) (provider v) = Some p \<Longrightarrow>
   getSessionValue a s = (Some v, s\<lparr>trace := trace s @ [StorageGet]\<rparr>)"
  by (simp add: getSessionValue_def sessionStorage_get_def)

lemma getSessionValue_stale:
  "store s = Some v \<Longrightarrow> DAList.lookup (providers a) (provider v) = None \<Longrightarrow>
   getSessionValue a s = (None, s\<lparr>store := None, trace := trace s @ [StorageGet, StorageClear]\<rparr>)"
  by (simp add: getSessionValue_def sessionStorage_get_def sessionStorage_clear_def)

lemma authenticate_calls_append:
  "authenticate_calls (xs @ ys) = authenticate_calls xs @ authenticate_calls ys"
  by (induction xs rule: authenticate_calls.induct) simp_all

lemma storage_writes_append:
  "storage_writes (xs @ ys) = storage_writes xs @ storage_writes ys"
  by (induction xs rule: storage_writes.induct) simp_all

lemma final_iff: "(failed r \<or> succeeded r \<or> redirected r) = (r \<noteq> NotHandled)"
  by (cases r) simp_all

lemma loop_step:
  assumes "provider_authenticate p request (passed_state ex n) (world s) = (r, w)"
  shows "authenticate_loop a request now ex r0 ((n, Some p) # rest) s =
    (case updateSessionValue a now n r (if passed_state ex n = None then None else ex)
            (isSystemAPIRequest a request)
            (s\<lparr>world := w, trace := trace s @ [ProviderAuthenticate n (passed_state ex n) r]\<rparr>) of
       Inl e \<Rightarrow> (Inl e, s\<lparr>world := w, trace := trace s @ [ProviderAuthenticate n (passed_state ex n) r]\<rparr>)
     | Inr s2 \<Rightarrow> if r \<noteq> NotHandled then (Inr r, s2)
                 else authenticate_loop a request now ex r rest s2)"
proof (cases ex)
  case None
  with assms show ?thesis
    by (simp add: passed_state_def final_iff Let_def split: sum.splits)
next
  case (Some v)
  with assms show ?thesis
    by (cases "provider v = n") (simp_all add: passed_state_def final_iff Let_def split: sum.splits)
qed

lemma loop_step_NotHandled:
  assumes "provider_authenticate p request (passed_state ex n) (world s) = (NotHandled, w)"
  shows "authenticate_loop a request now ex r0 ((n, Some p) # rest) s =
     authenticate_loop a request now ex NotHandled rest
       (s\<lparr>world := w, trace := trace s @ [ProviderAuthenticate n (passed_state ex n) NotHandled]\<rparr>)"
  by (simp add: loop_step [OF assms] updateSessionValue_NotHandled del: authenticate_loop.simps)

lemma loop_step_final:
  assumes "provider_authenticate p request (passed_state ex n) (world s) = (r, w)"
    and "r \<noteq> NotHandled"
    and "updateSessionValue a now n r (if passed_state ex n = None then None else ex)
            (isSystemAPIRequest a request)
            (s\<lparr>world := w, trace := trace s @ [ProviderAuthenticate n (passed_state ex n) r]\<rparr>) = Inr s2"
  shows "authenticate_loop a request now ex r0 ((n, Some p) # rest) s = (Inr r, s2)"
  using assms(2,3) by (simp add: loop_step [OF assms(1)] del: authenticate_loop.simps)

lemma updateSessionValue_trace:
  assumes "updateSessionValue a now n r ex sysreq s = Inr s2"
  shows "\<exists>evs. trace s2 = trace s @ evs \<and> authenticate_calls evs = [] \<and> world s2 = world s"
  using assms
  by (cases r; cases "result_state r"; cases ex)
     (auto simp add: updateSessionValue_def sessionStorage_set_def sessionStorage_clear_def
        split: if_splits)

lemma loop_calls:
  assumes "\<forall>e\<in>set entries. snd e \<noteq> None"
    and "authenticate_loop a request now ex r0 entries s = (out, s')"
  shows "\<exists>evs res calls. out = Inr res \<and> trace s' = trace s @ evs \<and>
     calls = authenticate_calls evs \<and>
     map fst calls = take (length calls) (map fst entries) \<and>
     map (\<lambda>c. fst (snd c)) calls = map (passed_state ex) (map fst calls) \<and>
     (\<forall>c\<in>set (butlast calls). snd (snd c) = NotHandled) \<and>
     res = (if calls = [] then r0 else snd (snd (last calls))) \<and>
     (calls = [] \<longrightarrow> entries = []) \<and>
     (res = NotHandled \<longrightarrow> calls \<noteq> [] \<longrightarrow> length calls = length entries)"
  using assms
proof (induction entries arbitrary: r0 s)
  case Nil
  then show ?case by simp
next
  case (Cons e rest)
  from Cons.prems(1) obtain n p where e: "e = (n, Some p)"
    by (cases e) auto
  obtain r w where pa: "provider_authenticate p request (passed_state ex n) (world s) = (r, w)"
    by (cases "provider_authenticate p request (passed_state ex n) (world s)")
  let ?c = "ProviderAuthenticate n (passed_state ex n) r"
  let ?s1 = "s\<lparr>world := w, trace := trace s @ [?c]\<rparr>"
  obtain s2 where upd: "updateSessionValue a now n r (if passed_state ex n = None then None else ex)
            (isSystemAPIRequest a request) ?s1 = Inr s2"
    using updateSessionValue_total by blast
  from updateSessionValue_trace [OF upd] obtain uevs
    where uevs: "trace s2 = trace s @ [?c] @ uevs" "authenticate_calls uevs = []"
    by auto
  show ?case
  proof (cases "r = NotHandled")
    case False
    have "authenticate_loop a request now ex r0 (e # rest) s = (Inr r, s2)"
      unfolding e by (rule loop_step_final [OF pa False upd])
    with Cons.prems(2) have out: "out = Inr r" "s' = s2" by simp_all
    have calls: "authenticate_calls ([?c] @ uevs) = [(n, passed_state ex n, r)]"
      by (simp add: uevs(2))
    show ?thesis
      apply (rule exI [of _ "[?c] @ uevs"])
      apply (rule exI [of _ r])
      apply (rule exI [of _ "[(n, passed_state ex n, r)]"])
      using out uevs(1) calls False e by simp
  next
    case True
    have "authenticate_loop a request now ex r0 (e # rest) s =
          authenticate_loop a request now ex r rest s2"
      unfolding e using upd True by (simp add: loop_step [OF pa] del: authenticate_loop.simps)
    with Cons.prems(2) have rest: "authenticate_loop a request now ex r rest s2 = (out, s')"
      by simp
    from Cons.prems(1) have all: "\<forall>e\<in>set rest. snd e \<noteq> None" by simp
    from Cons.IH [OF all rest] obtain evs res calls where ih:
      "out = Inr res" "trace s' = trace s2 @ evs" "calls = authenticate_calls evs"
      "map fst calls = take (length calls) (map fst rest)"
      "map (\<lambda>c. fst (snd c)) calls = map (passed_state ex) (map fst calls)"
      "\<forall>c\<in>set (butlast calls). snd (snd c) = NotHandled"
      "res = (if calls = [] then r else snd (snd (last calls)))"
      "calls = [] \<longrightarrow> rest = []"
      "res = NotHandled \<longrightarrow> calls \<noteq> [] \<longrightarrow> length calls = length rest"
      by blast
    have calls: "authenticate_calls ([?c] @ uevs @ evs) = (n, passed_state ex n, r) # calls"
      by (simp add: uevs(2) ih(3) authenticate_calls_append)
    show ?thesis
      apply (rule exI [of _ "[?c] @ uevs @ evs"])
      apply (rule exI [of _ res])
      apply (rule exI [of _ "(n, passed_state ex n, r) # calls"])
      using ih uevs(1) calls True e by (auto simp add: butlast.simps)
  qed
qed

lemma loop_last:
  assumes "\<forall>e\<in>set entries. snd e \<noteq> None"
    and "authenticate_loop a request now ex r0 entries s = (out, s')"
  shows "(entries = [] \<and> out = Inr r0 \<and> s' = s) \<or>
    (\<exists>n p sb res w pre.
        (n, Some p) \<in> set entries \<and> trace sb = trace s @ pre \<and> storage_writes pre = [] \<and>
        store sb = store s \<and> (\<forall>c\<in>set (authenticate_calls pre). snd (snd c) = NotHandled) \<and>
        provider_authenticate p request (passed_state ex n) (world sb) = (res, w) \<and> out = Inr res \<and>
        updateSessionValue a now n res (if passed_state ex n = None then None else ex)
          (isSystemAPIRequest a request)
          (sb\<lparr>world := w, trace := trace sb @ [ProviderAuthenticate n (passed_state ex n) res]\<rparr>) = Inr s')"
  using assms
proof (induction entries arbitrary: r0 s)
  case Nil
  then show ?case by simp
next
  case (Cons e rest)
  from Cons.prems(1) obtain n p where e: "e = (n, Some p)"
    by (cases e) auto
  obtain r w where pa: "provider_authenticate p request (passed_state ex n) (world s) = (r, w)"
    by (cases "provider_authenticate p request (passed_state ex n) (world s)")
  let ?c = "ProviderAuthenticate n (passed_state ex n) r"
  let ?s1 = "s\<lparr>world := w, trace := trace s @ [?c]\<rparr>"
  obtain s2 where upd: "updateSessionValue a now n r (if passed_state ex n = None then None else ex)
            (isSystemAPIRequest a request) ?s1 = Inr s2"
    using updateSessionValue_total by blast
  have here: "\<exists>n p sb res w pre.
        (n, Some p) \<in> set (e # rest) \<and> trace sb = trace s @ pre \<and> storage_writes pre = [] \<and>
        store sb = store s \<and> (\<forall>c\<in>set (authenticate_calls pre). snd (snd c) = NotHandled) \<and>
        provider_authenticate p request (passed_state ex n) (world sb) = (res, w) \<and> Inr r = Inr res \<and>
        updateSessionValue a now n res (if passed_state ex n = None then None else ex)
          (isSystemAPIRequest a request)
          (sb\<lparr>world := w, trace := trace sb @ [ProviderAuthenticate n (passed_state ex n) res]\<rparr>) = Inr s2"
    apply (rule exI [of _ n], rule exI [of _ p], rule exI [of _ s], rule exI [of _ r])
    apply (rule exI [of _ w], rule exI [of _ "[]"])
    using pa upd e by simp
  show ?case
  proof (cases "r = NotHandled")
    case False
    have "authenticate_loop a request now ex r0 (e # rest) s = (Inr r, s2)"
      unfolding e by (rule loop_step_final [OF pa False upd])
    with Cons.prems(2) have "out = Inr r" "s' = s2" by simp_all
    with here show ?thesis by simp
  next
    case True
    with upd have s2: "s2 = ?s1" by (simp add: updateSessionValue_NotHandled)
    have "authenticate_loop a request now ex r0 (e # rest) s =
          authenticate_loop a request now ex r rest s2"
      unfolding e using upd True by (simp add: loop_step [OF pa] del: authenticate_loop.simps)
    with Cons.prems(2) have rest: "authenticate_loop a request now ex r rest s2 = (out, s')"
      by simp
    from Cons.prems(1) have all: "\<forall>e\<in>set rest. snd e \<noteq> None" by simp
    from Cons.IH [OF all rest] show ?thesis
    proof
      assume "rest = [] \<and> out = Inr r \<and> s' = s2"
      with here show ?thesis by simp
    next
      assume "\<exists>n p sb res w pre.
        (n, Some p) \<in> set rest \<and> trace sb = trace s2 @ pre \<and> storage_writes pre = [] \<and>
        store sb = store s2 \<and> (\<forall>c\<in>set (authenticate_calls pre). snd (snd c) = NotHandled) \<and>
        provider_authenticate p request (passed_state ex n) (world sb) = (res, w) \<and> out = Inr res \<and>
        updateSessionValue a now n res (if passed_state ex n = None then None else ex)
          (isSystemAPIRequest a request)
          (sb\<lparr>world := w, trace := trace sb @ [ProviderAuthenticate n (passed_state ex n) res]\<rparr>) = Inr s'"
      then obtain n' p' sb res w' pre where ih:
        "(n', Some p') \<in> set rest" "trace sb = trace s2 @ pre" "storage_writes pre = []"
        "store sb = store s2" "\<forall>c\<in>set (authenticate_calls pre). snd (snd c) = NotHandled"
        "provider_authenticate p' request (passed_state ex n') (world sb) = (res, w')" "out = Inr res"
        "updateSessionValue a now n' res (if passed_state ex n' = None then None else ex)
          (isSystemAPIRequest a request)
          (sb\<lparr>world := w', trace := trace sb @ [ProviderAuthenticate n' (passed_state ex n') res]\<rparr>) = Inr s'"
        by blast
      have "\<exists>n p sb res w pre.
        (n, Some p) \<in> set (e # rest) \<and> trace sb = trace s @ pre \<and> storage_writes pre = [] \<and>
        store sb = store s \<and> (\<forall>c\<in>set (authenticate_calls pre). snd (snd c) = NotHandled) \<and>
        provider_authenticate p request (passed_state ex n) (world sb) = (res, w) \<and> out = Inr res \<and>
        updateSessionValue a now n res (if passed_state ex n = None then None else ex)
          (isSystemAPIRequest a request)
          (sb\<lparr>world := w, trace := trace sb @ [ProviderAuthenticate n (passed_state ex n) res]\<rparr>) = Inr s'"
        apply (rule exI [of _ n'], rule exI [of _ p'], rule exI [of _ sb], rule exI [of _ res])
        apply (rule exI [of _ w'], rule exI [of _ "[?c] @ pre"])
        using ih s2 True by (simp add: authenticate_calls_append storage_writes_append)
      then show ?thesis by simp
    qed
  qed
qed

lemma map_fst_entries: "map fst (map (\<lambda>(n, p). (n, Some p)) xs) = map fst xs"
  by (induction xs) auto

lemma filter_fst_entries:
  "map fst (filter (\<lambda>(n, p). n \<noteq> k) xs) = filter (\<lambda>n. n \<noteq> k) (map fst xs)"
  by (induction xs) auto

lemma providerIterator_names:
  "map fst (providerIterator a sessionValue) = visit_order a sessionValue"
proof (cases sessionValue)
  case None
  then show ?thesis
    by (simp only: providerIterator_def visit_order_def option.case Let_def map_fst_entries)
next
  case (Some v)
  then show ?thesis
    by (simp only: providerIterator_def visit_order_def option.case Let_def list.map fst_conv
        map_fst_entries filter_fst_entries)
qed

lemma distinct_visit_order: "distinct (visit_order a sessionValue)"
  by (cases sessionValue) (simp_all add: visit_order_def)

lemma getSessionValue_configured:
  assumes "getSessionValue a s = (Some v, s1)"
  shows "DAList.lookup (providers a) (provider v) \<noteq> None"
  using assms
  by (auto simp add: getSessionValue_def sessionStorage_get_def split: option.splits if_splits)

lemma getSessionValue_trace:
  assumes "getSessionValue a s = (found, s1)"
  shows "\<exists>evs. trace s1 = trace s @ evs \<and> authenticate_calls evs = [] \<and> world s1 = world s"
  using assms
  by (auto simp add: getSessionValue_def sessionStorage_get_def sessionStorage_clear_def
      split: option.splits if_splits)

lemma providerIterator_defined:
  assumes "getSessionValue a s = (found, s1)"
  shows "\<forall>e\<in>set (providerIterator a found). snd e \<noteq> None"
proof (cases found)
  case None
  then show ?thesis by (auto simp add: providerIterator_def)
next
  case (Some v)
  with assms have "DAList.lookup (providers a) (provider v) \<noteq> None"
    by (simp add: getSessionValue_configured)
  with Some show ?thesis by (auto simp add: providerIterator_def)
qed

lemma impl_of_foldl_update:
  "DAList.impl_of (foldl (\<lambda>m (k, v). DAList.update k v m) m entries) =
   foldl (\<lambda>l (k, v). AList.update k v l) (DAList.impl_of m) entries"
  by (induction entries arbitrary: m) (auto simp add: DAList.update.rep_eq)

lemma update_fresh: "k \<notin> fst ` set l \<Longrightarrow> AList.update k v l = l @ [(k, v)]"
  by (induction l) auto

lemma foldl_update_distinct:
  "distinct (map fst (l @ entries)) \<Longrightarrow>
   foldl (\<lambda>l (k, v). AList.update k v l) l entries = l @ entries"
proof (induction entries arbitrary: l)
  case Nil
  then show ?case by simp
next
  case (Cons e entries)
  obtain k v where e: "e = (k, v)" by (cases e)
  from Cons.prems have fresh: "k \<notin> fst ` set l" by (auto simp add: e)
  from Cons.prems have "distinct (map fst ((l @ [(k, v)]) @ entries))" by (simp add: e)
  from Cons.IH [OF this] show ?case by (simp add: e update_fresh [OF fresh])
qed

lemma impl_of_Map_new:
  "distinct (map fst entries) \<Longrightarrow> DAList.impl_of (Map_new entries) = entries"
  by (simp add: Map_new_def impl_of_foldl_update DAList.empty.rep_eq foldl_update_distinct)

lemma lookup_Map_new:
  "distinct (map fst entries) \<Longrightarrow> DAList.lookup (Map_new entries) = map_of entries"
  by (simp add: DAList.lookup.rep_eq impl_of_Map_new)

lemmas example_simps =
  example_provider_def example_authenticator_def example_request_def example_system_def
  example_chain_def example_unauthorized_def example_fallback_def example_fallthrough_def
  example_single_def example_three_def example_basic_session_def example_token_session_def
  impl_of_Map_new lookup_Map_new assertRequest_def assertLoginAttempt_def

lemma logout_no_TypeError: "fst (logout a request s) \<noteq> Inl TypeError"
proof (cases "getSessionValue a s")
  case (Pair found s1)
  show ?thesis
  proof (cases found)
    case None
    with Pair show ?thesis
      by (simp add: logout_def split_beta Let_def split: option.splits)
  next
    case (Some v)
    with Pair have "DAList.lookup (providers a) (provider v) \<noteq> None"
      by (simp add: getSessionValue_configured)
    with Pair Some show ?thesis
      by (auto simp add: logout_def split_beta Let_def)
  qed
qed

lemma authenticate_no_TypeError: "fst (authenticate a request now s) \<noteq> Inl TypeError"
proof (cases "assertRequest request")
  case False
  then show ?thesis by (simp add: authenticate_def)
next
  case True
  obtain out s' where run: "authenticate a request now s = (out, s')"
    by (cases "authenticate a request now s")
  obtain found s1 where g: "getSessionValue a s = (found, s1)"
    by (cases "getSessionValue a s")
  from True run g have loop:
    "authenticate_loop a request now found NotHandled (providerIterator a found) s1 = (out, s')"
    by (simp add: authenticate_def)
  from loop_calls [OF providerIterator_defined [OF g] loop] obtain res where "out = Inr res"
    by blast
  with run show ?thesis by simp
qed

lemma login_unauthorized:
  assumes "login a request attempt now s = (Inr r, s')" and "failedWith401 r"
  shows "store s' = None"
proof -
  from assms(2) obtain e where r: "r = Failed e" by (cases r) auto
  show ?thesis
  proof (cases "store s")
    case None
    with assms r show ?thesis
      by (auto simp add: login_def getSessionValue_None Let_def
          split: if_splits option.splits prod.splits)
  next
    case (Some v)
    show ?thesis
    proof (cases "DAList.lookup (providers a) (provider v)")
      case None
      with Some assms r show ?thesis
        by (auto simp add: login_def getSessionValue_stale Let_def
            split: if_splits option.splits prod.splits)
    next
      case (Some p)
      with \<open>store s = Some v\<close> assms r show ?thesis
        by (auto simp add: login_def getSessionValue_valid Let_def sessionStorage_clear_def
            split: if_splits option.splits prod.splits)
    qed
  qed
qed

lemma authenticate_owner_final:
  assumes "assertRequest request"
    and "store s = Some v" and "DAList.lookup (providers a) (provider v) = Some p"
    and "provider_authenticate p request (Some (state v)) (world s) = (r, w)"
    and "r \<noteq> NotHandled"
    and "updateSessionValue a now (provider v) r (Some v) (isSystemAPIRequest a request)
           (s\<lparr>world := w,
              trace := trace s @ [StorageGet, ProviderAuthenticate (provider v) (Some (state v)) r]\<rparr>) =
         Inr s'"
  shows "authenticate a request now s = (Inr r, s')"
proof -
  let ?s1 = "s\<lparr>trace := trace s @ [StorageGet]\<rparr>"
  have g: "getSessionValue a s = (Some v, ?s1)"
    using assms(2,3) by (rule getSessionValue_valid)
  have passed: "passed_state (Some v) (provider v) = Some (state v)"
    by (simp add: passed_state_def)
  have pa: "provider_authenticate p request (passed_state (Some v) (provider v)) (world ?s1) = (r, w)"
    using assms(4) by (simp add: passed)
  have upd: "updateSessionValue a now (provider v) r
       (if passed_state (Some v) (provider v) = None then None else Some v)
       (isSystemAPIRequest a request)
       (?s1\<lparr>world := w,
            trace := trace ?s1 @
              [ProviderAuthenticate (provider v) (passed_state (Some v) (provider v)) r]\<rparr>) = Inr s'"
    using assms(6) by (simp add: passed)
  from loop_step_final [OF pa assms(5) upd]
  have "authenticate_loop a request now (Some v) NotHandled
          ((provider v, Some p) #
           map (\<lambda>(providerType, p). (providerType, Some p))
             (filter (\<lambda>(providerType, p). providerType \<noteq> provider v)
               (DAList.impl_of (providers a)))) ?s1 = (Inr r, s')" .
  with assms(1,3) g show ?thesis
    by (simp add: authenticate_def providerIterator_def)
qed

lemma Update_final:
  assumes "result_state r = Update st"
  shows "(succeeded r \<or> redirected r) \<and> shouldUpdateState r \<and> \<not> shouldClearState r \<and>
         \<not> failedWith401 r \<and> r \<noteq> NotHandled"
  using assms by (cases r) simp_all

lemma login_update_store:
  assumes "login a request attempt now s = (Inr r, s')" and "result_state r = Update st"
  shows "store s' = Some \<lparr>provider = attempt_provider attempt,
                          expires = sessionExpires (ttl a) now, state = st\<rparr>"
proof -
  note u = Update_final [OF assms(2)]
  show ?thesis
  proof (cases "store s")
    case None
    with assms u show ?thesis
      by (auto simp add: login_def getSessionValue_None Let_def sessionStorage_set_def
          split: if_splits option.splits prod.splits)
  next
    case (Some v)
    show ?thesis
    proof (cases "DAList.lookup (providers a) (provider v)")
      case None
      with Some assms u show ?thesis
        by (auto simp add: login_def getSessionValue_stale Let_def sessionStorage_set_def
            split: if_splits option.splits prod.splits)
    next
      case (Some p)
      with \<open>store s = Some v\<close> assms u show ?thesis
        by (auto simp add: login_def getSessionValue_valid Let_def sessionStorage_set_def
            sessionStorage_clear_def split: if_splits option.splits prod.splits)
    qed
  qed
qed



lemma authenticate_owner_first:
  assumes "assertRequest request"
    and "store s = Some v" and "DAList.lookup (providers a) (provider v) = Some p"
    and "provider_authenticate p request (Some (state v)) (world s) = (r, w)"
  shows "\<exists>evs. trace (snd (authenticate a request now s)) =
           trace s @ StorageGet # ProviderAuthenticate (provider v) (Some (state v)) r # evs"
proof -
  let ?s1 = "s\<lparr>trace := trace s @ [StorageGet]\<rparr>"
  let ?rest = "map (\<lambda>(providerType, p). (providerType, Some p))
             (filter (\<lambda>(providerType, p). providerType \<noteq> provider v)
               (DAList.impl_of (providers a)))"
  let ?s1' = "?s1\<lparr>world := w,
            trace := trace ?s1 @
              [ProviderAuthenticate (provider v) (passed_state (Some v) (provider v)) r]\<rparr>"
  have g: "getSessionValue a s = (Some v, ?s1)"
    using assms(2,3) by (rule getSessionValue_valid)
  have passed: "passed_state (Some v) (provider v) = Some (state v)"
    by (simp add: passed_state_def)
  have pa: "provider_authenticate p request (passed_state (Some v) (provider v)) (world ?s1) = (r, w)"
    using assms(4) by (simp add: passed)
  obtain s2 where upd: "updateSessionValue a now (provider v) r
       (if passed_state (Some v) (provider v) = None then None else Some v)
       (isSystemAPIRequest a request) ?s1' = Inr s2"
    using updateSessionValue_total by blast
  from updateSessionValue_trace [OF upd] obtain uevs where
    uevs: "trace s2 = trace s @ StorageGet # ProviderAuthenticate (provider v) (Some (state v)) r # uevs"
    by (auto simp add: passed)
  have run: "authenticate a request now s =
      authenticate_loop a request now (Some v) NotHandled ((provider v, Some p) # ?rest) ?s1"
    using assms(1,3) g by (simp add: authenticate_def providerIterator_def)
  show ?thesis
  proof (cases "r = NotHandled")
    case False
    from loop_step_final [OF pa False upd] run
    have "authenticate a request now s = (Inr r, s2)" by simp
    with uevs show ?thesis by simp
  next
    case True
    obtain out s' where rest: "authenticate_loop a request now (Some v) r ?rest s2 = (out, s')"
      by (cases "authenticate_loop a request now (Some v) r ?rest s2")
    have "\<forall>e\<in>set ?rest. snd e \<noteq> None" by auto
    from loop_calls [OF this rest] obtain evs where evs: "trace s' = trace s2 @ evs"
      by blast
    from run upd True rest have "authenticate a request now s = (out, s')"
      by (simp add: loop_step [OF pa] del: authenticate_loop.simps)
    with evs uevs show ?thesis by simp
  qed
qed

lemmas run_simps =
  login_def authenticate_def logout_def getSessionValue_def sessionStorage_get_def
  sessionStorage_set_def sessionStorage_clear_def providerIterator_def updateSessionValue_def
  sessionExpires_def number_plus_exact isSAMLRequestQuery_def

text \<open>
  What the constructor establishes: the registry is not empty, its names are the
  configured ones, and the time to live is the configured session timeout.
\<close>

lemma instantiateAll_names:
  "instantiateAll options names = Inr entries \<Longrightarrow> map fst entries = names"
  by (induction names arbitrary: entries) (auto split: sum.splits)

lemma foldl_update_names:
  "fst ` set (foldl (\<lambda>l (k, v). AList.update k v l) l entries) = fst ` set l \<union> fst ` set entries"
proof (induction entries arbitrary: l)
  case Nil
  then show ?case by simp
next
  case (Cons e entries)
  obtain k v where e: "e = (k, v)" by (cases e)
  have "fst ` set (foldl (\<lambda>l (k, v). AList.update k v l) (AList.update k v l) entries) =
        fst ` set (AList.update k v l) \<union> fst ` set entries"
    by (rule Cons.IH)
  then show ?case
    by (simp add: e dom_update Un_commute insert_commute)
qed

lemma names_set: "map fst entries = names \<Longrightarrow> fst ` set entries = set names"
  by (induction entries arbitrary: names) auto

lemma Authenticator_new_configured:
  assumes "Authenticator_new options = Inr a"
  shows "DAList.impl_of (providers a) \<noteq> [] \<and>
         set (map fst (DAList.impl_of (providers a))) = set (authc_providers options) \<and>
         ttl a = sessionTimeout options"
proof -
  from assms obtain entries where
    entries: "instantiateAll options (authc_providers options) = Inr entries"
    and a: "a = \<lparr>providers = Map_new entries, ttl = sessionTimeout options,
                 isSystemAPIRequest = options_isSystemAPIRequest options\<rparr>"
    and some: "authc_providers options \<noteq> []"
    by (auto simp add: Authenticator_new_def split: if_splits sum.splits)
  have "fst ` set (DAList.impl_of (Map_new entries)) = fst ` set entries"
    by (simp add: Map_new_def impl_of_foldl_update DAList.empty.rep_eq foldl_update_names)
  with names_set [OF instantiateAll_names [OF entries]]
  have names: "set (map fst (DAList.impl_of (Map_new entries))) = set (authc_providers options)"
    by simp
  from names some have "DAList.impl_of (Map_new entries) \<noteq> []"
    by (cases "DAList.impl_of (Map_new entries)") simp_all
  with names a show ?thesis by simp
qed

text \<open>The constructor builds the chain \<^verbatim>\<open>["token", "saml"]\<close> from its options.\<close>

lemma example_chain_constructed: "Authenticator_new example_options = Inr example_chain"
  by (simp add: Authenticator_new_def example_options_def instantiateProvider_def providerMap_def
      example_chain_def example_authenticator_def)

text \<open>What \<^verbatim>\<open>getSessionValue\<close> returns, read off the storage.\<close>

lemma getSessionValue_found:
  "fst (getSessionValue a s) =
    (case store s of
       None \<Rightarrow> None
     | Some v \<Rightarrow> if DAList.lookup (providers a) (provider v) = None then None else Some v)"
  by (simp add: getSessionValue_def sessionStorage_get_def split: option.splits)

text \<open>
  The outcome that ends \<^verbatim>\<open>authenticate\<close>, when it comes from a provider that does not own
  the session and asks for no update, leaves the storage alone.
\<close>

lemma other_provider_final:
  assumes "assertRequest request"
    and "store s = Some v" and "DAList.lookup (providers a) (provider v) = Some p"
    and "authenticate a request now s = (Inr r, s')"
    and "trace s' = trace s @ evs"
    and "(n, passed, r) \<in> set (authenticate_calls evs)" and "n \<noteq> provider v"
    and "r \<noteq> NotHandled" and "\<not> shouldUpdateState r"
  shows "store s' = Some v \<and> storage_writes evs = []"
proof -
  let ?s1 = "s\<lparr>trace := trace s @ [StorageGet]\<rparr>"
  have g: "getSessionValue a s = (Some v, ?s1)"
    using assms(2,3) by (rule getSessionValue_valid)
  from assms(1,4) g have loop:
    "authenticate_loop a request now (Some v) NotHandled (providerIterator a (Some v)) ?s1 =
       (Inr r, s')"
    by (simp add: authenticate_def)
  note final = assms(8)
  from loop_last [OF providerIterator_defined [OF g] loop] final
  obtain m q sb w pre where l:
    "trace sb = trace ?s1 @ pre" "storage_writes pre = []" "store sb = store ?s1"
    "\<forall>c\<in>set (authenticate_calls pre). snd (snd c) = NotHandled"
    "updateSessionValue a now m r (if passed_state (Some v) m = None then None else Some v)
       (isSystemAPIRequest a request)
       (sb\<lparr>world := w, trace := trace sb @ [ProviderAuthenticate m (passed_state (Some v) m) r]\<rparr>) =
     Inr s'"
    by auto
  from updateSessionValue_trace [OF l(5)] obtain uevs where
    u: "trace s' = trace s @ [StorageGet] @ pre @ [ProviderAuthenticate m (passed_state (Some v) m) r] @ uevs"
       "authenticate_calls uevs = []"
    using l(1) by auto
  with assms(5) have evs:
    "evs = [StorageGet] @ pre @ [ProviderAuthenticate m (passed_state (Some v) m) r] @ uevs"
    by simp
  have "authenticate_calls evs = authenticate_calls pre @ [(m, passed_state (Some v) m, r)]"
    by (simp add: evs authenticate_calls_append u(2))
  with assms(6) l(4) final have m: "m = n"
    by auto
  with assms(7) have none: "passed_state (Some v) m = None"
    by (simp add: passed_state_def)
  with l(5) assms(9) have s':
    "s' = sb\<lparr>world := w, trace := trace sb @ [ProviderAuthenticate m None r]\<rparr>"
    by (simp add: updateSessionValue_not_owner)
  with l(1) assms(5) have "evs = [StorageGet] @ pre @ [ProviderAuthenticate m None r]"
    by simp
  with s' l(2,3) assms(2) show ?thesis
    by (simp add: storage_writes_append)
qed

subsection \<open>The order in which \<^verbatim>\<open>authenticate\<close> visits the providers\<close>

text \<open>
  Claim C2. For every call of \<^verbatim>\<open>authenticate\<close> on a well-formed request, the providers whose
  \<^verbatim>\<open>authenticate\<close> is called are an initial part of the order of visit. That order is read
  off the storage as it is before the call: the configured order when no session is
  stored (or the stored one names a provider that is not configured, and is purged), and
  the owner of the stored session followed by the remaining configured providers in
  configured order otherwise. No provider is called twice. Every call but the last
  returned not-handled and the outcome of the last call is what \<^verbatim>\<open>authenticate\<close> returns, so
  the iteration stops at the first provider that fails, succeeds or redirects; and when
  not-handled is returned, every provider of the order has been called (and has returned
  not-handled).
\<close>

theorem authenticate_provider_order:
  assumes "assertRequest request"
    and "authenticate a request now s = (out, s')"
  shows "\<exists>evs res calls. out = Inr res \<and> trace s' = trace s @ evs \<and>
     calls = authenticate_calls evs \<and>
     map fst calls =
       take (length calls)
         (visit_order a
            (case store s of
               None \<Rightarrow> None
             | Some v \<Rightarrow>
                 if DAList.lookup (providers a) (provider v) = None then None else Some v)) \<and>
     distinct (map fst calls) \<and>
     (\<forall>c\<in>set (butlast calls). snd (snd c) = NotHandled) \<and>
     res = (if calls = [] then NotHandled else snd (snd (last calls))) \<and>
     (res = NotHandled \<longrightarrow>
        map fst calls =
          visit_order a
            (case store s of
               None \<Rightarrow> None
             | Some v \<Rightarrow>
                 if DAList.lookup (providers a) (provider v) = None then None else Some v))"
proof -
  obtain found s1 where g: "getSessionValue a s = (found, s1)"
    by (cases "getSessionValue a s")
  from getSessionValue_found [of a s] g have found:
    "(case store s of
        None \<Rightarrow> None
      | Some v \<Rightarrow> if DAList.lookup (providers a) (provider v) = None then None else Some v) =
     found"
    by simp
  from getSessionValue_trace [OF g] obtain gevs where
    gevs: "trace s1 = trace s @ gevs" "authenticate_calls gevs = []"
    by blast
  from assms g have loop:
    "authenticate_loop a request now found NotHandled (providerIterator a found) s1 = (out, s')"
    by (simp add: authenticate_def)
  from loop_calls [OF providerIterator_defined [OF g] loop] obtain evs res calls where l:
    "out = Inr res" "trace s' = trace s1 @ evs" "calls = authenticate_calls evs"
    "map fst calls = take (length calls) (map fst (providerIterator a found))"
    "\<forall>c\<in>set (butlast calls). snd (snd c) = NotHandled"
    "res = (if calls = [] then NotHandled else snd (snd (last calls)))"
    "calls = [] \<longrightarrow> providerIterator a found = []"
    "res = NotHandled \<longrightarrow> calls \<noteq> [] \<longrightarrow> length calls = length (providerIterator a found)"
    by blast
  let ?order = "visit_order a found"
  from l(4) have names: "map fst calls = take (length calls) ?order"
    by (simp add: providerIterator_names)
  have dist: "distinct (map fst calls)"
    unfolding names by (rule distinct_take [OF distinct_visit_order])
  have all: "res = NotHandled \<longrightarrow> map fst calls = ?order"
  proof
    assume nh: "res = NotHandled"
    show "map fst calls = ?order"
    proof (cases "calls = []")
      case True
      with l(7) have "providerIterator a found = []" by simp
      then have "?order = []" by (simp add: providerIterator_names [symmetric])
      with True show ?thesis by simp
    next
      case False
      with nh l(8) have "length calls = length (providerIterator a found)" by simp
      then have "length calls = length ?order"
        by (simp add: providerIterator_names [symmetric])
      with names show ?thesis by simp
    qed
  qed
  have calls: "authenticate_calls (gevs @ evs) = calls"
    by (simp add: authenticate_calls_append gevs(2) l(3))
  show ?thesis
    unfolding found
    apply (rule exI [of _ "gevs @ evs"], rule exI [of _ res], rule exI [of _ calls])
    using l(1,2,5,6) gevs(1) names dist all calls by simp
qed

text \<open>
  With the chain \<^verbatim>\<open>["basic", "token", "saml"]\<close> and a stored session of the token provider,
  the token provider is called first, with its state, and then the basic and the SAML
  provider in the configured order; the redirection of the SAML provider is returned. With
  the chain \<^verbatim>\<open>["token", "saml"]\<close> and no session (the scenario of the specification), the
  token provider is called first and then the SAML provider.
\<close>

theorem authenticate_provider_order_witness:
  "assertRequest example_request \<and>
   authenticate example_three example_request 1000 (example_system (Some example_token_session)) =
     (Inr (Redirected ''/idp'' (Update 1)),
      \<lparr>store = Some \<lparr>provider = ''saml'', expires = Some 3601000, state = 1\<rparr>,
       world = 3,
       trace = [StorageGet, ProviderAuthenticate ''token'' (Some 9) NotHandled,
                ProviderAuthenticate ''basic'' None NotHandled,
                ProviderAuthenticate ''saml'' None (Redirected ''/idp'' (Update 1)),
                StorageSet \<lparr>provider = ''saml'', expires = Some 3601000, state = 1\<rparr>]\<rparr>) \<and>
   (\<exists>evs calls.
      [StorageGet, ProviderAuthenticate ''token'' (Some 9) NotHandled,
       ProviderAuthenticate ''basic'' None NotHandled,
       ProviderAuthenticate ''saml'' None (Redirected ''/idp'' (Update 1)),
       StorageSet \<lparr>provider = ''saml'', expires = Some 3601000, state = 1\<rparr>] = evs \<and>
      calls = authenticate_calls evs \<and>
      map fst calls = take (length calls) [''token'', ''basic'', ''saml''] \<and>
      distinct (map fst calls) \<and>
      Redirected ''/idp'' (Update 1) = (if calls = [] then NotHandled else snd (snd (last calls)))) \<and>
   authenticate example_chain example_request 1000 (example_system None) =
     (Inr (Redirected ''/idp'' (Update 1)),
      \<lparr>store = Some \<lparr>provider = ''saml'', expires = Some 3601000, state = 1\<rparr>,
       world = 2,
       trace = [StorageGet, ProviderAuthenticate ''token'' None NotHandled,
                ProviderAuthenticate ''saml'' None (Redirected ''/idp'' (Update 1)),
                StorageSet \<lparr>provider = ''saml'', expires = Some 3601000, state = 1\<rparr>]\<rparr>) \<and>
   (\<exists>evs calls.
      [StorageGet, ProviderAuthenticate ''token'' None NotHandled,
       ProviderAuthenticate ''saml'' None (Redirected ''/idp'' (Update 1)),
       StorageSet \<lparr>provider = ''saml'', expires = Some 3601000, state = 1\<rparr>] = evs \<and>
      calls = authenticate_calls evs \<and>
      map fst calls = take (length calls) [''token'', ''saml''] \<and>
      distinct (map fst calls) \<and>
      Redirected ''/idp'' (Update 1) = (if calls = [] then NotHandled else snd (snd (last calls))))"
proof -
  let ?owned = "\<lparr>store = Some \<lparr>provider = ''saml'', expires = Some 3601000, state = 1\<rparr>,
       world = 3,
       trace = [StorageGet, ProviderAuthenticate ''token'' (Some 9) NotHandled,
                ProviderAuthenticate ''basic'' None NotHandled,
                ProviderAuthenticate ''saml'' None (Redirected ''/idp'' (Update 1)),
                StorageSet \<lparr>provider = ''saml'', expires = Some 3601000, state = 1\<rparr>]\<rparr>
       :: (nat, string, nat) system"
  let ?fresh = "\<lparr>store = Some \<lparr>provider = ''saml'', expires = Some 3601000, state = 1\<rparr>,
       world = 2,
       trace = [StorageGet, ProviderAuthenticate ''token'' None NotHandled,
                ProviderAuthenticate ''saml'' None (Redirected ''/idp'' (Update 1)),
                StorageSet \<lparr>provider = ''saml'', expires = Some 3601000, state = 1\<rparr>]\<rparr>
       :: (nat, string, nat) system"
  have request: "assertRequest example_request"
    by (simp add: example_simps)
  have owned: "authenticate example_three example_request 1000
       (example_system (Some example_token_session)) =
     (Inr (Redirected ''/idp'' (Update 1)), ?owned)"
    by (simp add: run_simps example_three_def example_simps)
  have fresh: "authenticate example_chain example_request 1000 (example_system None) =
     (Inr (Redirected ''/idp'' (Update 1)), ?fresh)"
    by (simp add: run_simps example_simps)
  have order_owned: "visit_order example_three
      (case store (example_system (Some example_token_session)) of
         None \<Rightarrow> None
       | Some v \<Rightarrow>
           if DAList.lookup (providers example_three) (provider v) = None then None else Some v) =
      [''token'', ''basic'', ''saml'']"
    by (simp add: visit_order_def example_three_def example_simps)
  have order_fresh: "visit_order example_chain
      (case store (example_system None) of
         None \<Rightarrow> None
       | Some v \<Rightarrow>
           if DAList.lookup (providers example_chain) (provider v) = None then None else Some v) =
      [''token'', ''saml'']"
    by (simp add: visit_order_def example_simps)
  from authenticate_provider_order [OF request owned] obtain evs res calls where
    "Inr (Redirected ''/idp'' (Update 1)) = Inr res"
    "trace ?owned = trace (example_system (Some example_token_session)) @ evs"
    "calls = authenticate_calls evs"
    "map fst calls = take (length calls) [''token'', ''basic'', ''saml'']"
    "distinct (map fst calls)"
    "res = (if calls = [] then NotHandled else snd (snd (last calls)))"
    unfolding order_owned by blast
  then have "trace ?owned = evs \<and> calls = authenticate_calls evs \<and>
      map fst calls = take (length calls) [''token'', ''basic'', ''saml''] \<and>
      distinct (map fst calls) \<and>
      Redirected ''/idp'' (Update 1) = (if calls = [] then NotHandled else snd (snd (last calls)))"
    by (simp add: example_system_def)
  then have first: "\<exists>evs calls.
      [StorageGet, ProviderAuthenticate ''token'' (Some 9) NotHandled,
       ProviderAuthenticate ''basic'' None NotHandled,
       ProviderAuthenticate ''saml'' None (Redirected ''/idp'' (Update 1)),
       StorageSet \<lparr>provider = ''saml'', expires = Some 3601000, state = 1\<rparr>] = evs \<and>
      calls = authenticate_calls evs \<and>
      map fst calls = take (length calls) [''token'', ''basic'', ''saml''] \<and>
      distinct (map fst calls) \<and>
      Redirected ''/idp'' (Update 1) = (if calls = [] then NotHandled else snd (snd (last calls)))"
    by simp
  from authenticate_provider_order [OF request fresh] obtain evs res calls where
    "Inr (Redirected ''/idp'' (Update 1)) = Inr res"
    "trace ?fresh = trace (example_system None) @ evs"
    "calls = authenticate_calls evs"
    "map fst calls = take (length calls) [''token'', ''saml'']"
    "distinct (map fst calls)"
    "res = (if calls = [] then NotHandled else snd (snd (last calls)))"
    unfolding order_fresh by blast
  then have "trace ?fresh = evs \<and> calls = authenticate_calls evs \<and>
      map fst calls = take (length calls) [''token'', ''saml''] \<and>
      distinct (map fst calls) \<and>
      Redirected ''/idp'' (Update 1) = (if calls = [] then NotHandled else snd (snd (last calls)))"
    by (simp add: example_system_def)
  then have second: "\<exists>evs calls.
      [StorageGet, ProviderAuthenticate ''token'' None NotHandled,
       ProviderAuthenticate ''saml'' None (Redirected ''/idp'' (Update 1)),
       StorageSet \<lparr>provider = ''saml'', expires = Some 3601000, state = 1\<rparr>] = evs \<and>
      calls = authenticate_calls evs \<and>
      map fst calls = take (length calls) [''token'', ''saml''] \<and>
      distinct (map fst calls) \<and>
      Redirected ''/idp'' (Update 1) = (if calls = [] then NotHandled else snd (snd (last calls)))"
    by simp
  from conjI [OF request conjI [OF owned conjI [OF first conjI [OF fresh second]]]]
  show ?thesis .
qed

subsection \<open>Calls that leave the session storage alone\<close>

text \<open>
  Claim C6. A \<^verbatim>\<open>login\<close> on a well-formed request whose attempt names a provider that is not
  in the registry returns the not-handled outcome and leaves the state as it was: the
  session storage is not even read, and nothing is set or cleared.
\<close>

theorem login_unconfigured_provider:
  assumes "assertRequest request" and "assertLoginAttempt attempt"
    and "DAList.lookup (providers a) (attempt_provider attempt) = None"
  shows "login a request attempt now s = (Inr NotHandled, s)"
  using assms by (simp add: login_def)

theorem login_unconfigured_provider_witness:
  "assertRequest example_request \<and>
   assertLoginAttempt (ProviderLoginAttempt ''basic'' ''secret'') \<and>
   DAList.lookup (providers example_chain) ''basic'' = None \<and>
   login example_chain example_request (ProviderLoginAttempt ''basic'' ''secret'') 1000
     (example_system (Some \<lparr>provider = ''saml'', expires = None, state = 4\<rparr>)) =
   (Inr NotHandled, example_system (Some \<lparr>provider = ''saml'', expires = None, state = 4\<rparr>))"
proof -
  have request: "assertRequest example_request"
    by (simp add: example_simps)
  have attempt: "assertLoginAttempt (ProviderLoginAttempt ''basic'' ''secret'')"
    by (simp add: example_simps)
  have absent: "DAList.lookup (providers example_chain)
      (attempt_provider (ProviderLoginAttempt ''basic'' ''secret'')) = None"
    by (simp add: example_chain_def example_simps)
  from login_unconfigured_provider [OF request attempt absent] request attempt absent
  show ?thesis by simp
qed

text \<open>
  Claim C8. A \<^verbatim>\<open>logout\<close> on a well-formed request, when the session storage holds no session
  and the request's query is not a SAML logout request, returns the not-handled
  deauthentication outcome; the storage is read once and nothing is set or cleared.
\<close>

theorem logout_without_session:
  assumes "assertRequest request" and "store s = None"
    and "\<not> isSAMLRequestQuery (query request)"
  shows "logout a request s = (Inr DeauthNotHandled, s\<lparr>trace := trace s @ [StorageGet]\<rparr>)"
  using assms by (simp add: logout_def getSessionValue_None)

theorem logout_without_session_witness:
  "assertRequest example_request \<and> store (example_system None) = None \<and>
   \<not> isSAMLRequestQuery (query example_request) \<and>
   logout example_chain example_request (example_system None) =
     (Inr DeauthNotHandled, \<lparr>store = None, world = 0, trace = [StorageGet]\<rparr>)"
proof -
  have request: "assertRequest example_request"
    by (simp add: example_simps)
  have empty: "store (example_system None) = None"
    by (simp add: example_simps)
  have plain: "\<not> isSAMLRequestQuery (query example_request)"
    by (simp add: isSAMLRequestQuery_def example_simps)
  from logout_without_session [OF request empty plain] request empty plain
  show ?thesis by (simp add: example_simps)
qed

subsection \<open>What \<^verbatim>\<open>login\<close> does with a session of another provider\<close>

text \<open>
  Claim C3. When the storage holds a session of a provider other than the configured
  provider that the attempt targets, \<^verbatim>\<open>login\<close> reads the storage, clears it and only then
  calls the target provider's \<^verbatim>\<open>login\<close>, which gets no provider state. The only event that
  can follow is the storing of the state that the outcome asks to persist. Afterwards the
  stored session is gone: the storage is empty, or it holds the session of the target
  provider that the outcome asked to store.
\<close>

theorem login_clears_foreign_session_first:
  assumes "assertRequest request" and "assertLoginAttempt attempt"
    and "DAList.lookup (providers a) (attempt_provider attempt) = Some q"
    and "store s = Some v" and "provider v \<noteq> attempt_provider attempt"
    and "provider_login q request (attempt_value attempt) None (world s) = (r, w)"
  shows "fst (login a request attempt now s) = Inr r \<and>
     trace (snd (login a request attempt now s)) =
       trace s @
       [StorageGet, StorageClear,
        ProviderLogin (attempt_provider attempt) (attempt_value attempt) None r] @
       (case result_state r of
          Update st \<Rightarrow>
            [StorageSet \<lparr>provider = attempt_provider attempt,
                         expires = sessionExpires (ttl a) now, state = st\<rparr>]
        | _ \<Rightarrow> []) \<and>
     store (snd (login a request attempt now s)) =
       (case result_state r of
          Update st \<Rightarrow>
            Some \<lparr>provider = attempt_provider attempt,
                  expires = sessionExpires (ttl a) now, state = st\<rparr>
        | _ \<Rightarrow> None) \<and>
     store (snd (login a request attempt now s)) \<noteq> Some v \<and>
     world (snd (login a request attempt now s)) = w"
proof (cases "DAList.lookup (providers a) (provider v)")
  case None
  with assms show ?thesis
    by (auto simp add: login_def getSessionValue_stale sessionStorage_set_def
        sessionStorage_clear_def split: StateIntent.splits)
next
  case (Some p)
  with assms show ?thesis
    by (auto simp add: login_def getSessionValue_valid sessionStorage_set_def
        sessionStorage_clear_def split: StateIntent.splits)
qed

text \<open>
  A token session is stored and the attempt targets the basic provider: the session is
  cleared, the basic provider logs in without a state, and its new state is stored. When
  the target is the token provider of the chain \<^verbatim>\<open>["token", "saml"]\<close>, whose login is not
  handled, a stored session of the basic provider is cleared and nothing is stored.
\<close>

theorem login_clears_foreign_session_first_witness:
  "assertRequest example_request \<and>
   assertLoginAttempt (ProviderLoginAttempt ''basic'' ''secret'') \<and>
   store (example_system (Some example_token_session)) = Some example_token_session \<and>
   provider example_token_session \<noteq> ''basic'' \<and>
   login example_fallback example_request (ProviderLoginAttempt ''basic'' ''secret'')
       1000 (example_system (Some example_token_session)) =
     (Inr (Succeeded ''elastic'' (Update 7)),
      \<lparr>store = Some \<lparr>provider = ''basic'', expires = Some 3601000, state = 7\<rparr>, world = 1,
       trace =
         [StorageGet, StorageClear,
          ProviderLogin ''basic'' ''secret'' None (Succeeded ''elastic'' (Update 7)),
          StorageSet \<lparr>provider = ''basic'', expires = Some 3601000, state = 7\<rparr>]\<rparr>) \<and>
   store (snd (login example_fallback example_request (ProviderLoginAttempt ''basic'' ''secret'')
                 1000 (example_system (Some example_token_session)))) \<noteq>
     Some example_token_session \<and>
   login example_chain example_request (ProviderLoginAttempt ''token'' ''secret'')
       1000 (example_system (Some example_basic_session)) =
     (Inr NotHandled,
      \<lparr>store = None, world = 1,
       trace = [StorageGet, StorageClear, ProviderLogin ''token'' ''secret'' None NotHandled]\<rparr>) \<and>
   store (snd (login example_chain example_request (ProviderLoginAttempt ''token'' ''secret'')
                 1000 (example_system (Some example_basic_session)))) = None"
proof -
  let ?attempt = "ProviderLoginAttempt ''basic'' ''secret'' :: string ProviderLoginAttempt"
  let ?attempt' = "ProviderLoginAttempt ''token'' ''secret'' :: string ProviderLoginAttempt"
  let ?basic = "example_provider (Succeeded ''elastic'' (Update 7)) NotHandled"
  let ?token = "example_provider NotHandled NotHandled"
  have request: "assertRequest example_request"
    by (simp add: example_simps)
  have attempt: "assertLoginAttempt ?attempt" and attempt': "assertLoginAttempt ?attempt'"
    by (simp_all add: example_simps)
  have target: "DAList.lookup (providers example_fallback) (attempt_provider ?attempt) = Some ?basic"
    by (simp add: example_simps)
  have target': "DAList.lookup (providers example_chain) (attempt_provider ?attempt') = Some ?token"
    by (simp add: example_simps)
  have stored: "store (example_system (Some example_token_session)) = Some example_token_session"
    by (simp add: example_simps)
  have stored': "store (example_system (Some example_basic_session)) = Some example_basic_session"
    by (simp add: example_simps)
  have other: "provider example_token_session \<noteq> attempt_provider ?attempt"
    by (simp add: example_simps)
  have other': "provider example_basic_session \<noteq> attempt_provider ?attempt'"
    by (simp add: example_simps)
  have call: "provider_login ?basic example_request (attempt_value ?attempt) None
      (world (example_system (Some example_token_session))) = (Succeeded ''elastic'' (Update 7), 1)"
    by (simp add: example_simps)
  have call': "provider_login ?token example_request (attempt_value ?attempt') None
      (world (example_system (Some example_basic_session))) = (NotHandled, 1)"
    by (simp add: example_simps)
  have run: "login example_fallback example_request ?attempt 1000
       (example_system (Some example_token_session)) =
     (Inr (Succeeded ''elastic'' (Update 7)),
      \<lparr>store = Some \<lparr>provider = ''basic'', expires = Some 3601000, state = 7\<rparr>, world = 1,
       trace =
         [StorageGet, StorageClear,
          ProviderLogin ''basic'' ''secret'' None (Succeeded ''elastic'' (Update 7)),
          StorageSet \<lparr>provider = ''basic'', expires = Some 3601000, state = 7\<rparr>]\<rparr>)"
    by (simp add: run_simps example_simps)
  have run': "login example_chain example_request ?attempt' 1000
       (example_system (Some example_basic_session)) =
     (Inr NotHandled,
      \<lparr>store = None, world = 1,
       trace = [StorageGet, StorageClear, ProviderLogin ''token'' ''secret'' None NotHandled]\<rparr>)"
    by (simp add: run_simps example_simps)
  from login_clears_foreign_session_first [OF request attempt target stored other call, of 1000]
  have gone: "store (snd (login example_fallback example_request ?attempt 1000
      (example_system (Some example_token_session)))) \<noteq> Some example_token_session"
    by blast
  from login_clears_foreign_session_first [OF request attempt' target' stored' other' call', of 1000]
  have empty: "store (snd (login example_chain example_request ?attempt' 1000
      (example_system (Some example_basic_session)))) = None"
    by simp
  from other have other'': "provider example_token_session \<noteq> ''basic''"
    by simp
  from conjI [OF request conjI [OF attempt conjI [OF stored conjI [OF other'' conjI [OF run
        conjI [OF gone conjI [OF run' empty]]]]]]]
  show ?thesis .
qed

subsection \<open>Sessions always name a configured provider\<close>

text \<open>
  Claim C10. A session that \<^verbatim>\<open>getSessionValue\<close> returns names a provider of the registry; a
  stored session that names no configured provider is cleared and reported as absent.
  Hence every entry that \<^verbatim>\<open>providerIterator\<close> yields for what \<^verbatim>\<open>getSessionValue\<close> returned holds a
  provider, and neither \<^verbatim>\<open>logout\<close> nor \<^verbatim>\<open>authenticate\<close> ever throws on a lookup that found
  nothing.
\<close>

theorem session_provider_is_configured:
  "(\<forall>v s1. getSessionValue a s = (Some v, s1) \<longrightarrow>
      DAList.lookup (providers a) (provider v) \<noteq> None) \<and>
   (\<forall>v. store s = Some v \<and> DAList.lookup (providers a) (provider v) = None \<longrightarrow>
      getSessionValue a s = (None, s\<lparr>store := None, trace := trace s @ [StorageGet, StorageClear]\<rparr>)) \<and>
   (\<forall>e\<in>set (providerIterator a (fst (getSessionValue a s))). snd e \<noteq> None) \<and>
   fst (logout a request s) \<noteq> Inl TypeError \<and>
   fst (authenticate a request now s) \<noteq> Inl TypeError"
proof (intro conjI allI impI)
  fix v s1
  assume "getSessionValue a s = (Some v, s1)"
  then show "DAList.lookup (providers a) (provider v) \<noteq> None"
    by (rule getSessionValue_configured)
next
  fix v
  assume "store s = Some v \<and> DAList.lookup (providers a) (provider v) = None"
  then show "getSessionValue a s =
      (None, s\<lparr>store := None, trace := trace s @ [StorageGet, StorageClear]\<rparr>)"
    by (simp add: getSessionValue_stale)
next
  show "\<forall>e\<in>set (providerIterator a (fst (getSessionValue a s))). snd e \<noteq> None"
    by (rule providerIterator_defined [of a s _ "snd (getSessionValue a s)"]) simp
next
  show "fst (logout a request s) \<noteq> Inl TypeError"
    by (rule logout_no_TypeError)
next
  show "fst (authenticate a request now s) \<noteq> Inl TypeError"
    by (rule authenticate_no_TypeError)
qed

text \<open>
  A token session with the token provider configured is returned as it is; a basic session
  with the chain \<^verbatim>\<open>["token", "saml"]\<close> is purged.
\<close>

theorem session_provider_is_configured_witness:
  "getSessionValue example_fallback (example_system (Some example_token_session)) =
     (Some example_token_session, \<lparr>store = Some example_token_session, world = 0, trace = [StorageGet]\<rparr>) \<and>
   DAList.lookup (providers example_fallback) ''token'' \<noteq> None \<and>
   store (example_system (Some example_basic_session)) = Some example_basic_session \<and>
   DAList.lookup (providers example_chain) ''basic'' = None \<and>
   getSessionValue example_chain (example_system (Some example_basic_session)) =
     (None, \<lparr>store = None, world = 0, trace = [StorageGet, StorageClear]\<rparr>) \<and>
   fst (logout example_chain example_request (example_system (Some example_basic_session))) \<noteq>
     Inl TypeError \<and>
   fst (authenticate example_chain example_request 1000 (example_system (Some example_basic_session))) \<noteq>
     Inl TypeError"
proof -
  have valid: "getSessionValue example_fallback (example_system (Some example_token_session)) =
     (Some example_token_session, \<lparr>store = Some example_token_session, world = 0, trace = [StorageGet]\<rparr>)"
    by (simp add: getSessionValue_def sessionStorage_get_def example_simps)
  have stale: "store (example_system (Some example_basic_session)) = Some example_basic_session \<and>
      DAList.lookup (providers example_chain) (provider example_basic_session) = None"
    by (simp add: example_simps)
  from session_provider_is_configured
         [of example_fallback "example_system (Some example_token_session)" example_request 1000]
    valid
  have "DAList.lookup (providers example_fallback) (provider example_token_session) \<noteq> None"
    by blast
  then have configured: "DAList.lookup (providers example_fallback) ''token'' \<noteq> None"
    by (simp add: example_token_session_def)
  from session_provider_is_configured
         [of example_chain "example_system (Some example_basic_session)" example_request 1000]
    stale
  have purged: "getSessionValue example_chain (example_system (Some example_basic_session)) =
      (None, (example_system (Some example_basic_session))
               \<lparr>store := None,
                trace := trace (example_system (Some example_basic_session)) @
                  [StorageGet, StorageClear]\<rparr>)"
    and safe: "fst (logout example_chain example_request
                      (example_system (Some example_basic_session))) \<noteq> Inl TypeError"
      "fst (authenticate example_chain example_request 1000
              (example_system (Some example_basic_session))) \<noteq> Inl TypeError"
    by blast+
  from purged have "getSessionValue example_chain (example_system (Some example_basic_session)) =
     (None, \<lparr>store = None, world = 0, trace = [StorageGet, StorageClear]\<rparr>)"
    by (simp add: example_system_def)
  with valid configured stale safe show ?thesis
    by (simp add: example_basic_session_def)
qed

subsection \<open>Outcomes of a provider that does not own the session\<close>

text \<open>
  Claim C9. When the current session is owned by a configured provider and
  \<^verbatim>\<open>authenticate\<close> returns the outcome of another provider that succeeded or redirected
  without asking for a state update, the stored session is the same as before and no
  operation of the call has set or cleared the storage.
\<close>

theorem other_provider_leaves_session:
  assumes "assertRequest request"
    and "store s = Some v" and "DAList.lookup (providers a) (provider v) = Some p"
    and "authenticate a request now s = (Inr r, s')"
    and "trace s' = trace s @ evs"
    and "(n, passed, r) \<in> set (authenticate_calls evs)" and "n \<noteq> provider v"
    and "succeeded r \<or> redirected r" and "\<not> shouldUpdateState r"
  shows "store s' = Some v \<and> storage_writes evs = []"
proof -
  let ?s1 = "s\<lparr>trace := trace s @ [StorageGet]\<rparr>"
  have g: "getSessionValue a s = (Some v, ?s1)"
    using assms(2,3) by (rule getSessionValue_valid)
  from assms(1,4) g have loop:
    "authenticate_loop a request now (Some v) NotHandled (providerIterator a (Some v)) ?s1 =
       (Inr r, s')"
    by (simp add: authenticate_def)
  from assms(8) have final: "r \<noteq> NotHandled" by auto
  from loop_last [OF providerIterator_defined [OF g] loop] final
  obtain m q sb w pre where l:
    "trace sb = trace ?s1 @ pre" "storage_writes pre = []" "store sb = store ?s1"
    "\<forall>c\<in>set (authenticate_calls pre). snd (snd c) = NotHandled"
    "updateSessionValue a now m r (if passed_state (Some v) m = None then None else Some v)
       (isSystemAPIRequest a request)
       (sb\<lparr>world := w, trace := trace sb @ [ProviderAuthenticate m (passed_state (Some v) m) r]\<rparr>) =
     Inr s'"
    by auto
  from updateSessionValue_trace [OF l(5)] obtain uevs where
    u: "trace s' = trace s @ [StorageGet] @ pre @ [ProviderAuthenticate m (passed_state (Some v) m) r] @ uevs"
       "authenticate_calls uevs = []"
    using l(1) by auto
  with assms(5) have evs:
    "evs = [StorageGet] @ pre @ [ProviderAuthenticate m (passed_state (Some v) m) r] @ uevs"
    by simp
  have "authenticate_calls evs = authenticate_calls pre @ [(m, passed_state (Some v) m, r)]"
    by (simp add: evs authenticate_calls_append u(2))
  with assms(6) l(4) final have m: "m = n"
    by auto
  with assms(7) have none: "passed_state (Some v) m = None"
    by (simp add: passed_state_def)
  with l(5) assms(9) have s':
    "s' = sb\<lparr>world := w, trace := trace sb @ [ProviderAuthenticate m None r]\<rparr>"
    by (simp add: updateSessionValue_not_owner)
  with l(1) assms(5) have "evs = [StorageGet] @ pre @ [ProviderAuthenticate m None r]"
    by simp
  with s' l(2,3) assms(2) show ?thesis
    by (simp add: storage_writes_append)
qed

text \<open>
  The basic provider owns the session and does not handle the request; the token provider
  then authenticates it without a state, and the basic session stays as it was.
\<close>

theorem other_provider_leaves_session_witness:
  "assertRequest example_request \<and>
   DAList.lookup (providers example_fallthrough) ''basic'' \<noteq> None \<and>
   authenticate example_fallthrough example_request 1000
       (example_system (Some example_basic_session)) =
     (Inr (Succeeded ''elastic'' Unset),
      \<lparr>store = Some example_basic_session, world = 2,
       trace = [StorageGet, ProviderAuthenticate ''basic'' (Some 5) NotHandled,
                ProviderAuthenticate ''token'' None (Succeeded ''elastic'' Unset)]\<rparr>) \<and>
   storage_writes
     [StorageGet :: (string, nat) event, ProviderAuthenticate ''basic'' (Some 5) NotHandled,
      ProviderAuthenticate ''token'' None (Succeeded ''elastic'' Unset)] = []"
proof -
  let ?evs = "[StorageGet, ProviderAuthenticate ''basic'' (Some 5) NotHandled,
      ProviderAuthenticate ''token'' None (Succeeded ''elastic'' Unset)] :: (string, nat) event list"
  let ?s' = "\<lparr>store = Some example_basic_session, world = 2, trace = ?evs\<rparr>
      :: (nat, string, nat) system"
  have request: "assertRequest example_request"
    by (simp add: example_simps)
  have stored: "store (example_system (Some example_basic_session)) = Some example_basic_session"
    by (simp add: example_simps)
  have owner: "DAList.lookup (providers example_fallthrough) (provider example_basic_session) =
      Some (example_provider NotHandled NotHandled)"
    by (simp add: example_simps)
  have run: "authenticate example_fallthrough example_request 1000
       (example_system (Some example_basic_session)) = (Inr (Succeeded ''elastic'' Unset), ?s')"
    by (simp add: run_simps example_simps)
  have events: "trace ?s' = trace (example_system (Some example_basic_session)) @ ?evs"
    by (simp add: example_simps)
  have call: "(''token'', None, Succeeded ''elastic'' Unset) \<in> set (authenticate_calls ?evs)"
    by simp
  have other: "''token'' \<noteq> provider example_basic_session"
    by (simp add: example_simps)
  have outcome: "succeeded (Succeeded ''elastic'' Unset :: nat AuthenticationResult) \<or>
      redirected (Succeeded ''elastic'' Unset :: nat AuthenticationResult)"
    by simp
  have unset: "\<not> shouldUpdateState (Succeeded ''elastic'' Unset :: nat AuthenticationResult)"
    by simp
  from other_provider_leaves_session [OF request stored owner run events call other outcome unset]
  have "storage_writes ?evs = []" by simp
  moreover from owner have "DAList.lookup (providers example_fallthrough) ''basic'' \<noteq> None"
    by (simp add: example_basic_session_def)
  ultimately show ?thesis using request run by simp
qed

subsection \<open>Failures classified as unauthorized\<close>

text \<open>
  Claim C1 as it is stated does not hold of \<^verbatim>\<open>authenticate\<close>: \<^verbatim>\<open>updateSessionValue\<close> returns
  at once when the provider does not own the session and asks for no update. Here the
  basic provider owns the session and does not handle the request, the token provider
  fails with the status 401, and the basic session is still stored afterwards.
\<close>

theorem unauthorized_failure_of_other_provider_counterexample:
  "failedWith401 example_unauthorized \<and>
   authenticate example_fallback example_request 1000
       (example_system (Some example_basic_session)) =
     (Inr example_unauthorized,
      \<lparr>store = Some example_basic_session, world = 2,
       trace = [StorageGet, ProviderAuthenticate ''basic'' (Some 5) NotHandled,
                ProviderAuthenticate ''token'' None example_unauthorized]\<rparr>)"
  by (simp add: run_simps getErrorStatusCode_def example_simps)

text \<open>
  Claim C1, as amended. After a \<^verbatim>\<open>login\<close> whose provider fails with an error classified as
  unauthorized, the storage holds no session. When the provider that owns the current
  session fails in this way during \<^verbatim>\<open>authenticate\<close>, the session is cleared and the failure
  returned. When \<^verbatim>\<open>authenticate\<close> returns such a failure of a provider that does not own the
  current session, the session is the same as before and no operation of the call has set
  or cleared the storage.
\<close>

theorem unauthorized_failure_clears_session:
  "(\<forall>r s'. login a request attempt now s = (Inr r, s') \<and> failedWith401 r \<longrightarrow> store s' = None) \<and>
   (\<forall>v p r w.
      assertRequest request \<and> store s = Some v \<and>
      DAList.lookup (providers a) (provider v) = Some p \<and>
      provider_authenticate p request (Some (state v)) (world s) = (r, w) \<and> failedWith401 r \<longrightarrow>
      authenticate a request now s =
        (Inr r,
         s\<lparr>store := None, world := w,
           trace := trace s @
             [StorageGet, ProviderAuthenticate (provider v) (Some (state v)) r, StorageClear]\<rparr>)) \<and>
   (\<forall>v p r s' evs n passed.
      assertRequest request \<and> store s = Some v \<and>
      DAList.lookup (providers a) (provider v) = Some p \<and>
      authenticate a request now s = (Inr r, s') \<and> trace s' = trace s @ evs \<and>
      (n, passed, r) \<in> set (authenticate_calls evs) \<and> n \<noteq> provider v \<and> failedWith401 r \<longrightarrow>
      store s' = Some v \<and> storage_writes evs = [])"
proof (intro conjI allI impI)
  fix r s'
  assume "login a request attempt now s = (Inr r, s') \<and> failedWith401 r"
  then show "store s' = None" by (auto intro: login_unauthorized)
next
  fix v p r w
  assume h: "assertRequest request \<and> store s = Some v \<and>
      DAList.lookup (providers a) (provider v) = Some p \<and>
      provider_authenticate p request (Some (state v)) (world s) = (r, w) \<and> failedWith401 r"
  then obtain e where r: "r = Failed e" by (cases r) auto
  with h have upd: "updateSessionValue a now (provider v) r (Some v) (isSystemAPIRequest a request)
           (s\<lparr>world := w,
              trace := trace s @ [StorageGet, ProviderAuthenticate (provider v) (Some (state v)) r]\<rparr>) =
         Inr (s\<lparr>store := None, world := w,
           trace := trace s @
             [StorageGet, ProviderAuthenticate (provider v) (Some (state v)) r, StorageClear]\<rparr>)"
    by (simp add: updateSessionValue_def sessionStorage_clear_def)
  from r have "r \<noteq> NotHandled" by simp
  with h upd show "authenticate a request now s =
        (Inr r,
         s\<lparr>store := None, world := w,
           trace := trace s @
             [StorageGet, ProviderAuthenticate (provider v) (Some (state v)) r, StorageClear]\<rparr>)"
    by (auto intro: authenticate_owner_final)
next
  fix v p r s' evs n passed
  assume h: "assertRequest request \<and> store s = Some v \<and>
      DAList.lookup (providers a) (provider v) = Some p \<and>
      authenticate a request now s = (Inr r, s') \<and> trace s' = trace s @ evs \<and>
      (n, passed, r) \<in> set (authenticate_calls evs) \<and> n \<noteq> provider v \<and> failedWith401 r"
  then obtain e where r: "r = Failed e" by (cases r) auto
  then have final: "r \<noteq> NotHandled" and same: "\<not> shouldUpdateState r" by simp_all
  from h have request: "assertRequest request" and stored: "store s = Some v"
    and owner: "DAList.lookup (providers a) (provider v) = Some p"
    and run: "authenticate a request now s = (Inr r, s')" and events: "trace s' = trace s @ evs"
    and called: "(n, passed, r) \<in> set (authenticate_calls evs)" and other: "n \<noteq> provider v"
    by simp_all
  from other_provider_final [OF request stored owner run events called other final same]
  show "store s' = Some v" and "storage_writes evs = []" by simp_all
qed

text \<open>
  The token provider owns the session and rejects both a login and a request as
  unauthorized: the session is cleared each time. The basic provider owns the session and
  does not handle the request, the token provider rejects it: the basic session stays.
\<close>

theorem unauthorized_failure_clears_session_witness:
  "failedWith401 example_unauthorized \<and>
   login example_fallback example_request (ProviderLoginAttempt ''token'' ''secret'') 1000
       (example_system (Some example_token_session)) =
     (Inr example_unauthorized,
      \<lparr>store = None, world = 1,
       trace = [StorageGet, ProviderLogin ''token'' ''secret'' (Some 9) example_unauthorized,
                StorageClear]\<rparr>) \<and>
   assertRequest example_request \<and>
   authenticate example_fallback example_request 1000
       (example_system (Some example_token_session)) =
     (Inr example_unauthorized,
      \<lparr>store = None, world = 1,
       trace = [StorageGet, ProviderAuthenticate ''token'' (Some 9) example_unauthorized,
                StorageClear]\<rparr>) \<and>
   store (snd (authenticate example_fallback example_request 1000
                 (example_system (Some example_basic_session)))) = Some example_basic_session \<and>
   storage_writes
     (trace (snd (authenticate example_fallback example_request 1000
                    (example_system (Some example_basic_session))))) = []"
proof -
  let ?s = "example_system (Some example_token_session)"
  let ?b = "example_system (Some example_basic_session)"
  let ?basic = "example_provider (Succeeded ''elastic'' (Update 7)) NotHandled"
  let ?token = "example_provider example_unauthorized example_unauthorized"
  let ?after = "\<lparr>store = None, world = 1,
       trace = [StorageGet, ProviderLogin ''token'' ''secret'' (Some 9) example_unauthorized,
                StorageClear]\<rparr> :: (nat, string, nat) system"
  let ?evs = "[StorageGet, ProviderAuthenticate ''basic'' (Some 5) NotHandled,
       ProviderAuthenticate ''token'' None example_unauthorized] :: (string, nat) event list"
  let ?kept = "\<lparr>store = Some example_basic_session, world = 2, trace = ?evs\<rparr>
       :: (nat, string, nat) system"
  have unauthorized: "failedWith401 example_unauthorized"
    by (simp add: getErrorStatusCode_def example_simps)
  have run: "login example_fallback example_request (ProviderLoginAttempt ''token'' ''secret'') 1000 ?s =
      (Inr example_unauthorized, ?after)"
    by (simp add: run_simps getErrorStatusCode_def example_simps)
  have request: "assertRequest example_request"
    by (simp add: example_simps)
  have stored: "store ?s = Some example_token_session"
    by (simp add: example_simps)
  have owner: "DAList.lookup (providers example_fallback) (provider example_token_session) = Some ?token"
    by (simp add: example_simps)
  have call: "provider_authenticate ?token example_request (Some (state example_token_session))
      (world ?s) = (example_unauthorized, 1)"
    by (simp add: example_simps)
  have stored': "store ?b = Some example_basic_session"
    by (simp add: example_simps)
  have owner': "DAList.lookup (providers example_fallback) (provider example_basic_session) = Some ?basic"
    by (simp add: example_simps)
  have run': "authenticate example_fallback example_request 1000 ?b = (Inr example_unauthorized, ?kept)"
    by (simp add: run_simps getErrorStatusCode_def example_simps)
  have events: "trace ?kept = trace ?b @ ?evs"
    by (simp add: example_simps)
  have called: "(''token'', None, example_unauthorized) \<in> set (authenticate_calls ?evs)"
    by simp
  have other: "''token'' \<noteq> provider example_basic_session"
    by (simp add: example_simps)
  note clears = unauthorized_failure_clears_session
      [of example_fallback example_request "ProviderLoginAttempt ''token'' ''secret''" 1000 ?s]
  note keeps = unauthorized_failure_clears_session
      [of example_fallback example_request "ProviderLoginAttempt ''token'' ''secret''" 1000 ?b,
       THEN conjunct2, THEN conjunct2, rule_format,
       OF conjI [OF request conjI [OF stored' conjI [OF owner' conjI [OF run' conjI [OF events
            conjI [OF called conjI [OF other unauthorized]]]]]]]]
  from clears run unauthorized have "store ?after = None"
    by blast
  moreover from clears request stored owner call unauthorized
  have "authenticate example_fallback example_request 1000 ?s =
      (Inr example_unauthorized,
       ?s\<lparr>store := None, world := 1,
          trace := trace ?s @
            [StorageGet,
             ProviderAuthenticate (provider example_token_session)
               (Some (state example_token_session)) example_unauthorized,
             StorageClear]\<rparr>)"
    by blast
  then have cleared: "authenticate example_fallback example_request 1000 ?s =
     (Inr example_unauthorized,
      \<lparr>store = None, world = 1,
       trace = [StorageGet, ProviderAuthenticate ''token'' (Some 9) example_unauthorized,
                StorageClear]\<rparr>)"
    by (simp add: example_system_def example_token_session_def)
  from keeps have "store ?kept = Some example_basic_session" and "storage_writes ?evs = []"
    by simp_all
  then have kept: "store (snd (authenticate example_fallback example_request 1000 ?b)) =
      Some example_basic_session"
    "storage_writes (trace (snd (authenticate example_fallback example_request 1000 ?b))) = []"
    by (simp_all add: run')
  from unauthorized run request cleared kept show ?thesis by simp
qed

subsection \<open>Requests of the system\<close>

text \<open>
  Claim C4 as it is stated does not hold of an outcome that asks for no state update but
  asks to clear the state: on a request of the system, the owner of the session succeeds
  with such an outcome and the session is cleared, not left unchanged.
\<close>

theorem background_request_clearing_counterexample:
  "isSystemAPIRequest (example_single (Succeeded ''elastic'' Clear) None True) example_request \<and>
   succeeded (Succeeded ''elastic'' Clear :: nat AuthenticationResult) \<and>
   \<not> shouldUpdateState (Succeeded ''elastic'' Clear :: nat AuthenticationResult) \<and>
   store (example_system (Some example_basic_session)) = Some example_basic_session \<and>
   authenticate (example_single (Succeeded ''elastic'' Clear) None True) example_request 1000
       (example_system (Some example_basic_session)) =
     (Inr (Succeeded ''elastic'' Clear),
      \<lparr>store = None, world = 1,
       trace = [StorageGet, ProviderAuthenticate ''basic'' (Some 5) (Succeeded ''elastic'' Clear),
                StorageClear]\<rparr>)"
  by (simp add: run_simps example_simps)

text \<open>
  Claim C4, as amended. On a request that \<^verbatim>\<open>isSystemAPIRequest\<close> flags, when the provider
  that owns the current session succeeds or redirects without asking for a state update,
  the expiry of the stored session is not extended: nothing is written to the storage,
  and the session is left as it was, or it is cleared when the outcome asks to clear the
  state. In the same situation with a state update asked for, the session is written with
  a refreshed expiry, the value of \<^verbatim>\<open>this.ttl && Date.now() + this.ttl\<close> at the current
  time: the request for an update overrides the suppression for requests of the system.
\<close>

theorem background_request_session_extension:
  assumes "assertRequest request" and "isSystemAPIRequest a request"
    and "store s = Some v" and "DAList.lookup (providers a) (provider v) = Some p"
    and "provider_authenticate p request (Some (state v)) (world s) = (r, w)"
    and "succeeded r \<or> redirected r"
  shows "(\<not> shouldUpdateState r \<longrightarrow>
            authenticate a request now s =
              (Inr r,
               if shouldClearState r
               then s\<lparr>store := None, world := w,
                      trace := trace s @
                        [StorageGet, ProviderAuthenticate (provider v) (Some (state v)) r,
                         StorageClear]\<rparr>
               else s\<lparr>world := w,
                      trace := trace s @
                        [StorageGet, ProviderAuthenticate (provider v) (Some (state v)) r]\<rparr>)) \<and>
         (\<forall>st. result_state r = Update st \<longrightarrow>
            authenticate a request now s =
              (Inr r,
               s\<lparr>store := Some \<lparr>provider = provider v, expires = sessionExpires (ttl a) now, state = st\<rparr>,
                 world := w,
                 trace := trace s @
                   [StorageGet, ProviderAuthenticate (provider v) (Some (state v)) r,
                    StorageSet \<lparr>provider = provider v, expires = sessionExpires (ttl a) now,
                                state = st\<rparr>]\<rparr>))"
proof (intro conjI allI impI)
  from assms(6) have final: "r \<noteq> NotHandled" by auto
  {
    assume "\<not> shouldUpdateState r"
    with assms(2,6) have "updateSessionValue a now (provider v) r (Some v) (isSystemAPIRequest a request)
           (s\<lparr>world := w,
              trace := trace s @ [StorageGet, ProviderAuthenticate (provider v) (Some (state v)) r]\<rparr>) =
         Inr (if shouldClearState r
               then s\<lparr>store := None, world := w,
                      trace := trace s @
                        [StorageGet, ProviderAuthenticate (provider v) (Some (state v)) r,
                         StorageClear]\<rparr>
               else s\<lparr>world := w,
                      trace := trace s @
                        [StorageGet, ProviderAuthenticate (provider v) (Some (state v)) r]\<rparr>)"
      by (cases r; cases "result_state r")
         (simp_all add: updateSessionValue_def sessionStorage_clear_def)
    from authenticate_owner_final [OF assms(1,3,4,5) final this]
    show "authenticate a request now s =
              (Inr r,
               if shouldClearState r
               then s\<lparr>store := None, world := w,
                      trace := trace s @
                        [StorageGet, ProviderAuthenticate (provider v) (Some (state v)) r,
                         StorageClear]\<rparr>
               else s\<lparr>world := w,
                      trace := trace s @
                        [StorageGet, ProviderAuthenticate (provider v) (Some (state v)) r]\<rparr>)" .
  }
  {
    fix st
    assume "result_state r = Update st"
    with assms(2,6) have "updateSessionValue a now (provider v) r (Some v) (isSystemAPIRequest a request)
           (s\<lparr>world := w,
              trace := trace s @ [StorageGet, ProviderAuthenticate (provider v) (Some (state v)) r]\<rparr>) =
         Inr (s\<lparr>store := Some \<lparr>provider = provider v, expires = sessionExpires (ttl a) now, state = st\<rparr>,
                 world := w,
                 trace := trace s @
                   [StorageGet, ProviderAuthenticate (provider v) (Some (state v)) r,
                    StorageSet \<lparr>provider = provider v, expires = sessionExpires (ttl a) now,
                                state = st\<rparr>]\<rparr>)"
      by (cases r) (simp_all add: updateSessionValue_def sessionStorage_set_def)
    from authenticate_owner_final [OF assms(1,3,4,5) final this]
    show "authenticate a request now s =
              (Inr r,
               s\<lparr>store := Some \<lparr>provider = provider v, expires = sessionExpires (ttl a) now, state = st\<rparr>,
                 world := w,
                 trace := trace s @
                   [StorageGet, ProviderAuthenticate (provider v) (Some (state v)) r,
                    StorageSet \<lparr>provider = provider v, expires = sessionExpires (ttl a) now,
                                state = st\<rparr>]\<rparr>)" .
  }
qed

text \<open>
  On a request of the system, with a stored basic session that expires at 2000000 and a
  timeout of 60 minutes: an outcome without a state leaves the session and its expiry as
  they were, an outcome that asks to clear the state clears the session, and an outcome
  with the new state 8 stores it with the expiry 3601000.
\<close>

theorem background_request_session_extension_witness:
  "assertRequest example_request \<and>
   isSystemAPIRequest (example_single (Succeeded ''elastic'' Unset) (Some 3600000) True)
     example_request \<and>
   authenticate (example_single (Succeeded ''elastic'' Unset) (Some 3600000) True) example_request
       1000 (example_system (Some \<lparr>provider = ''basic'', expires = Some 2000000, state = 5\<rparr>)) =
     (Inr (Succeeded ''elastic'' Unset),
      \<lparr>store = Some \<lparr>provider = ''basic'', expires = Some 2000000, state = 5\<rparr>, world = 1,
       trace = [StorageGet,
                ProviderAuthenticate ''basic'' (Some 5) (Succeeded ''elastic'' Unset)]\<rparr>) \<and>
   authenticate (example_single (Succeeded ''elastic'' Clear) (Some 3600000) True) example_request
       1000 (example_system (Some \<lparr>provider = ''basic'', expires = Some 2000000, state = 5\<rparr>)) =
     (Inr (Succeeded ''elastic'' Clear),
      \<lparr>store = None, world = 1,
       trace = [StorageGet,
                ProviderAuthenticate ''basic'' (Some 5) (Succeeded ''elastic'' Clear),
                StorageClear]\<rparr>) \<and>
   authenticate (example_single (Succeeded ''elastic'' (Update 8)) (Some 3600000) True)
       example_request 1000
       (example_system (Some \<lparr>provider = ''basic'', expires = Some 2000000, state = 5\<rparr>)) =
     (Inr (Succeeded ''elastic'' (Update 8)),
      \<lparr>store = Some \<lparr>provider = ''basic'', expires = Some 3601000, state = 8\<rparr>, world = 1,
       trace = [StorageGet,
                ProviderAuthenticate ''basic'' (Some 5) (Succeeded ''elastic'' (Update 8)),
                StorageSet \<lparr>provider = ''basic'', expires = Some 3601000, state = 8\<rparr>]\<rparr>)"
proof -
  let ?v = "\<lparr>provider = ''basic'', expires = Some 2000000, state = 5\<rparr> :: nat ProviderSession"
  let ?s = "example_system (Some ?v)"
  let ?keep = "Succeeded ''elastic'' Unset :: nat AuthenticationResult"
  let ?drop = "Succeeded ''elastic'' Clear :: nat AuthenticationResult"
  let ?renew = "Succeeded ''elastic'' (Update 8) :: nat AuthenticationResult"
  have request: "assertRequest example_request"
    by (simp add: example_simps)
  have stored: "store ?s = Some ?v"
    by (simp add: example_simps)
  have background: "isSystemAPIRequest (example_single r (Some 3600000) True) example_request" for r
    by (simp add: example_simps)
  have owner: "DAList.lookup (providers (example_single r (Some 3600000) True))
      (provider ?v) = Some (example_provider (Succeeded ''elastic'' (Update 7)) r)"
    for r
    by (simp add: example_simps)
  have call: "provider_authenticate (example_provider (Succeeded ''elastic'' (Update 7)) r)
      example_request (Some (state ?v)) (world ?s) = (r, 1)" for r
    by (simp add: example_simps)
  have keep: "succeeded ?keep \<or> redirected ?keep" and drop: "succeeded ?drop \<or> redirected ?drop"
    and renew: "succeeded ?renew \<or> redirected ?renew"
    by simp_all
  from background_request_session_extension
         [OF request background stored owner call keep, of 1000]
  have first: "authenticate (example_single ?keep (Some 3600000) True) example_request 1000 ?s =
     (Inr ?keep,
      \<lparr>store = Some ?v, world = 1,
       trace = [StorageGet, ProviderAuthenticate ''basic'' (Some 5) ?keep]\<rparr>)"
    by (simp add: example_system_def)
  from background_request_session_extension
         [OF request background stored owner call drop, of 1000]
  have second: "authenticate (example_single ?drop (Some 3600000) True) example_request 1000 ?s =
     (Inr ?drop,
      \<lparr>store = None, world = 1,
       trace = [StorageGet, ProviderAuthenticate ''basic'' (Some 5) ?drop, StorageClear]\<rparr>)"
    by (simp add: example_system_def)
  from background_request_session_extension
         [OF request background stored owner call renew, of 1000]
  have third: "authenticate (example_single ?renew (Some 3600000) True) example_request 1000 ?s =
     (Inr ?renew,
      \<lparr>store = Some \<lparr>provider = ''basic'', expires = Some 3601000, state = 8\<rparr>, world = 1,
       trace = [StorageGet, ProviderAuthenticate ''basic'' (Some 5) ?renew,
                StorageSet \<lparr>provider = ''basic'', expires = Some 3601000, state = 8\<rparr>]\<rparr>)"
    by (simp add: example_system_def example_single_def example_authenticator_def
        sessionExpires_def number_plus_exact)
  from conjI [OF request conjI [OF background conjI [OF first conjI [OF second third]]]]
  show ?thesis .
qed

subsection \<open>The session stored on a state update\<close>




subsection \<open>From \<^verbatim>\<open>login\<close> to the next \<^verbatim>\<open>authenticate\<close>\<close>

text \<open>
  Claim C7 as it is stated does not hold of an outcome that asks for no state update but
  asks to clear the state: after a login that stored the state 7, the owner succeeds with
  such an outcome on a request that is not one of the system, and no session is stored
  again: the storage is cleared.
\<close>

theorem round_trip_clearing_counterexample:
  "login (example_single (Succeeded ''elastic'' Clear) (Some 3600000) False) example_request
       (ProviderLoginAttempt ''basic'' ''secret'') 1000 (example_system None) =
     (Inr (Succeeded ''elastic'' (Update 7)),
      \<lparr>store = Some \<lparr>provider = ''basic'', expires = Some 3601000, state = 7\<rparr>, world = 1,
       trace = [StorageGet,
                ProviderLogin ''basic'' ''secret'' None (Succeeded ''elastic'' (Update 7)),
                StorageSet \<lparr>provider = ''basic'', expires = Some 3601000, state = 7\<rparr>]\<rparr>) \<and>
   \<not> isSystemAPIRequest (example_single (Succeeded ''elastic'' Clear) (Some 3600000) False)
       example_request \<and>
   succeeded (Succeeded ''elastic'' Clear :: nat AuthenticationResult) \<and>
   \<not> shouldUpdateState (Succeeded ''elastic'' Clear :: nat AuthenticationResult) \<and>
   authenticate (example_single (Succeeded ''elastic'' Clear) (Some 3600000) False) example_request
       2000
       \<lparr>store = Some \<lparr>provider = ''basic'', expires = Some 3601000, state = 7\<rparr>, world = 1,
        trace = [StorageGet,
                 ProviderLogin ''basic'' ''secret'' None (Succeeded ''elastic'' (Update 7)),
                 StorageSet \<lparr>provider = ''basic'', expires = Some 3601000, state = 7\<rparr>]\<rparr> =
     (Inr (Succeeded ''elastic'' Clear),
      \<lparr>store = None, world = 2,
       trace = [StorageGet,
                ProviderLogin ''basic'' ''secret'' None (Succeeded ''elastic'' (Update 7)),
                StorageSet \<lparr>provider = ''basic'', expires = Some 3601000, state = 7\<rparr>,
                StorageGet,
                ProviderAuthenticate ''basic'' (Some 7) (Succeeded ''elastic'' Clear),
                StorageClear]\<rparr>)"
  by (simp add: run_simps example_simps)

text \<open>
  Claim C7, as amended. When a \<^verbatim>\<open>login\<close> has stored a session, the next \<^verbatim>\<open>authenticate\<close> that
  finds this session in the storage first calls the provider that logged in, with exactly
  the stored state. When that provider succeeds with an outcome that carries no state (it
  asks neither for an update nor for clearing) and the request is not one of the system,
  the session is stored again with the same state and owner.
\<close>

theorem login_authenticate_round_trip:
  assumes "login a request1 attempt now1 s = (Inr r1, t)" and "result_state r1 = Update st"
    and "store t' = store t"
    and "assertRequest request2"
    and "DAList.lookup (providers a) (attempt_provider attempt) = Some p"
    and "provider_authenticate p request2 (Some st) (world t') = (r2, w)"
  shows "(\<exists>evs. trace (snd (authenticate a request2 now2 t')) =
            trace t' @
            StorageGet # ProviderAuthenticate (attempt_provider attempt) (Some st) r2 # evs) \<and>
     (succeeded r2 \<and> result_state r2 = Unset \<and> \<not> isSystemAPIRequest a request2 \<longrightarrow>
        authenticate a request2 now2 t' =
          (Inr r2,
           t'\<lparr>store := Some \<lparr>provider = attempt_provider attempt,
                              expires = sessionExpires (ttl a) now2, state = st\<rparr>,
              world := w,
              trace := trace t' @
                [StorageGet, ProviderAuthenticate (attempt_provider attempt) (Some st) r2,
                 StorageSet \<lparr>provider = attempt_provider attempt,
                             expires = sessionExpires (ttl a) now2, state = st\<rparr>]\<rparr>))"
proof
  let ?v = "\<lparr>provider = attempt_provider attempt, expires = sessionExpires (ttl a) now1, state = st\<rparr>"
  from login_update_store [OF assms(1,2)] assms(3) have stored: "store t' = Some ?v"
    by simp
  have owner: "DAList.lookup (providers a) (provider ?v) = Some p"
    using assms(5) by simp
  have pa: "provider_authenticate p request2 (Some (state ?v)) (world t') = (r2, w)"
    using assms(6) by simp
  from authenticate_owner_first [OF assms(4) stored owner pa, of now2]
  show "\<exists>evs. trace (snd (authenticate a request2 now2 t')) =
            trace t' @
            StorageGet # ProviderAuthenticate (attempt_provider attempt) (Some st) r2 # evs"
    by simp
  show "succeeded r2 \<and> result_state r2 = Unset \<and> \<not> isSystemAPIRequest a request2 \<longrightarrow>
        authenticate a request2 now2 t' =
          (Inr r2,
           t'\<lparr>store := Some \<lparr>provider = attempt_provider attempt,
                              expires = sessionExpires (ttl a) now2, state = st\<rparr>,
              world := w,
              trace := trace t' @
                [StorageGet, ProviderAuthenticate (attempt_provider attempt) (Some st) r2,
                 StorageSet \<lparr>provider = attempt_provider attempt,
                             expires = sessionExpires (ttl a) now2, state = st\<rparr>]\<rparr>)"
  proof
    assume h: "succeeded r2 \<and> result_state r2 = Unset \<and> \<not> isSystemAPIRequest a request2"
    then have final: "r2 \<noteq> NotHandled" by auto
    from h have "updateSessionValue a now2 (provider ?v) r2 (Some ?v) (isSystemAPIRequest a request2)
           (t'\<lparr>world := w,
              trace := trace t' @ [StorageGet, ProviderAuthenticate (provider ?v) (Some (state ?v)) r2]\<rparr>) =
         Inr (t'\<lparr>store := Some \<lparr>provider = attempt_provider attempt,
                              expires = sessionExpires (ttl a) now2, state = st\<rparr>,
              world := w,
              trace := trace t' @
                [StorageGet, ProviderAuthenticate (attempt_provider attempt) (Some st) r2,
                 StorageSet \<lparr>provider = attempt_provider attempt,
                             expires = sessionExpires (ttl a) now2, state = st\<rparr>]\<rparr>)"
      by (cases r2) (simp_all add: updateSessionValue_def sessionStorage_set_def)
    from authenticate_owner_final [OF assms(4) stored owner pa final this]
    show "authenticate a request2 now2 t' =
          (Inr r2,
           t'\<lparr>store := Some \<lparr>provider = attempt_provider attempt,
                              expires = sessionExpires (ttl a) now2, state = st\<rparr>,
              world := w,
              trace := trace t' @
                [StorageGet, ProviderAuthenticate (attempt_provider attempt) (Some st) r2,
                 StorageSet \<lparr>provider = attempt_provider attempt,
                             expires = sessionExpires (ttl a) now2, state = st\<rparr>]\<rparr>)" .
  qed
qed

text \<open>
  The basic provider logs in at the time 1000 and stores the state 7; at the time 2000 it
  gets the state 7, succeeds without a state, and the state 7 is stored again.
\<close>

theorem login_authenticate_round_trip_witness:
  "login (example_single (Succeeded ''elastic'' Unset) (Some 3600000) False) example_request
       (ProviderLoginAttempt ''basic'' ''secret'') 1000 (example_system None) =
     (Inr (Succeeded ''elastic'' (Update 7)),
      \<lparr>store = Some \<lparr>provider = ''basic'', expires = Some 3601000, state = 7\<rparr>, world = 1,
       trace = [StorageGet,
                ProviderLogin ''basic'' ''secret'' None (Succeeded ''elastic'' (Update 7)),
                StorageSet \<lparr>provider = ''basic'', expires = Some 3601000, state = 7\<rparr>]\<rparr>) \<and>
   assertRequest example_request \<and>
   \<not> isSystemAPIRequest (example_single (Succeeded ''elastic'' Unset) (Some 3600000) False)
       example_request \<and>
   authenticate (example_single (Succeeded ''elastic'' Unset) (Some 3600000) False) example_request
       2000
       \<lparr>store = Some \<lparr>provider = ''basic'', expires = Some 3601000, state = 7\<rparr>, world = 1,
        trace = [StorageGet,
                 ProviderLogin ''basic'' ''secret'' None (Succeeded ''elastic'' (Update 7)),
                 StorageSet \<lparr>provider = ''basic'', expires = Some 3601000, state = 7\<rparr>]\<rparr> =
     (Inr (Succeeded ''elastic'' Unset),
      \<lparr>store = Some \<lparr>provider = ''basic'', expires = Some 3602000, state = 7\<rparr>, world = 2,
       trace = [StorageGet,
                ProviderLogin ''basic'' ''secret'' None (Succeeded ''elastic'' (Update 7)),
                StorageSet \<lparr>provider = ''basic'', expires = Some 3601000, state = 7\<rparr>,
                StorageGet,
                ProviderAuthenticate ''basic'' (Some 7) (Succeeded ''elastic'' Unset),
                StorageSet \<lparr>provider = ''basic'', expires = Some 3602000, state = 7\<rparr>]\<rparr>)"
proof -
  let ?a = "example_single (Succeeded ''elastic'' Unset) (Some 3600000) False"
  let ?attempt = "ProviderLoginAttempt ''basic'' ''secret'' :: string ProviderLoginAttempt"
  let ?basic = "example_provider (Succeeded ''elastic'' (Update 7)) (Succeeded ''elastic'' Unset)"
  let ?t = "\<lparr>store = Some \<lparr>provider = ''basic'', expires = Some 3601000, state = 7\<rparr>, world = 1,
        trace = [StorageGet,
                 ProviderLogin ''basic'' ''secret'' None (Succeeded ''elastic'' (Update 7)),
                 StorageSet \<lparr>provider = ''basic'', expires = Some 3601000, state = 7\<rparr>]\<rparr>
        :: (nat, string, nat) system"
  have first: "login ?a example_request ?attempt 1000 (example_system None) =
      (Inr (Succeeded ''elastic'' (Update 7)), ?t)"
    by (simp add: run_simps example_simps)
  have asked: "result_state (Succeeded ''elastic'' (Update 7) :: nat AuthenticationResult) = Update 7"
    by simp
  have same: "store ?t = store ?t"
    by simp
  have request: "assertRequest example_request"
    by (simp add: example_simps)
  have target: "DAList.lookup (providers ?a) (attempt_provider ?attempt) = Some ?basic"
    by (simp add: example_simps)
  have call: "provider_authenticate ?basic example_request (Some 7) (world ?t) =
      (Succeeded ''elastic'' Unset, 2)"
    by (simp add: example_simps)
  have foreground: "\<not> isSystemAPIRequest ?a example_request"
    by (simp add: example_simps)
  from login_authenticate_round_trip [OF first asked same request target call, of 2000] foreground
  have "authenticate ?a example_request 2000 ?t =
      (Inr (Succeeded ''elastic'' Unset),
       ?t\<lparr>store := Some \<lparr>provider = attempt_provider ?attempt,
                          expires = sessionExpires (ttl ?a) 2000, state = 7\<rparr>,
          world := 2,
          trace := trace ?t @
            [StorageGet,
             ProviderAuthenticate (attempt_provider ?attempt) (Some 7) (Succeeded ''elastic'' Unset),
             StorageSet \<lparr>provider = attempt_provider ?attempt,
                         expires = sessionExpires (ttl ?a) 2000, state = 7\<rparr>]\<rparr>)"
    by simp
  then have second: "authenticate ?a example_request 2000 ?t =
     (Inr (Succeeded ''elastic'' Unset),
      \<lparr>store = Some \<lparr>provider = ''basic'', expires = Some 3602000, state = 7\<rparr>, world = 2,
       trace = [StorageGet,
                ProviderLogin ''basic'' ''secret'' None (Succeeded ''elastic'' (Update 7)),
                StorageSet \<lparr>provider = ''basic'', expires = Some 3601000, state = 7\<rparr>,
                StorageGet,
                ProviderAuthenticate ''basic'' (Some 7) (Succeeded ''elastic'' Unset),
                StorageSet \<lparr>provider = ''basic'', expires = Some 3602000, state = 7\<rparr>]\<rparr>)"
    by (simp add: sessionExpires_def number_plus_exact example_single_def example_authenticator_def)
  from first request foreground second show ?thesis by simp
qed

end
